theory Spec2Isabelle
  imports Complex_Main
begin

section \<open>Numbers, failures and the Eigen containers\<close>

text \<open>
  The source is \<^verbatim>\<open>src/local_damage.h\<close>. Its numbers are C++ \<^verbatim>\<open>double\<close>s, and they are read
  in two ways.

  In the first reading a \<^verbatim>\<open>double\<close> is a \<^typ>\<open>real\<close> and every operation is exact. The
  statements about the branches, the history and the containers are made in this
  reading: which branch \<open>evaluate_kappa\<close> takes, what \<open>resize\<close>, \<open>evaluate\<close> and \<open>update\<close>
  store, and what is read back.

  In the second reading (section \<open>Double precision\<close>) a \<^verbatim>\<open>double\<close> is a real that the
  rounding of IEEE 754 binary64 leaves fixed, and every operation is followed by that
  rounding, to nearest with ties to even. The statements about the range of the damage
  and the sign of the equivalent strain depend on the rounding and are made in this
  reading. The exponent of the second reading is not bounded; overflow, the subnormal
  numbers and the IEEE values infinity and NaN are outside both readings.

  The quotient of HOL is total, with \<open>x / 0 = 0\<close>, where the C++ yields an infinity or
  NaN. The divisors of the source are \<open>k\<close>, \<open>1 - 2 * nu\<close>, \<open>1 + nu\<close>, \<open>nu - 1\<close> (plane
  stress), \<open>E\<close> and \<open>gf\<close> in the constructors, the history value \<open>kappa\<close> in the damage
  law and the norm \<open>A\<close> in the equivalent strain. Where a statement below depends on the
  value of a quotient by \<open>kappa\<close> or \<open>A\<close>, that divisor is different from zero; a
  statement of the first reading about a constructed law holds in the model for every
  parameter, and says nothing about the C++ at a parameter that makes a divisor of the
  constructor zero.

  A failed \<^verbatim>\<open>assert\<close> of the source is \<open>AssertionFailed\<close>. Eigen checks sizes and
  indices with assertions of its own (a product of mismatching sizes, a coefficient or
  segment out of range, a negative size): \<open>EigenAssertion\<close>. An index past the end of a
  \<^verbatim>\<open>std::vector\<close> is \<open>OutOfBounds\<close>. All three abort the computation.
\<close>

datatype error = AssertionFailed | EigenAssertion | OutOfBounds

definition and_then :: "error + 'a \<Rightarrow> ('a \<Rightarrow> error + 'b) \<Rightarrow> error + 'b" where
  "and_then r f = (case r of Inl e \<Rightarrow> Inl e | Inr x \<Rightarrow> f x)"

text \<open>\<^verbatim>\<open>Eigen::VectorXd\<close>: the coefficients in order.\<close>

type_synonym VectorXd = "real list"

text \<open>
  \<^verbatim>\<open>Eigen::MatrixXd\<close>, as Eigen stores it: the two sizes and the coefficients column by
  column, so that \<^verbatim>\<open>value.data()\<close> is \<open>m_data\<close> and coefficient \<open>(r, c)\<close> sits at
  \<open>c * m_rows + r\<close>. A matrix of Eigen holds \<open>m_rows * m_cols\<close> coefficients
  (\<open>storage_ok\<close>).
\<close>

record MatrixXd =
  m_rows :: nat
  m_cols :: nat
  m_data :: "real list"

definition storage_ok :: "MatrixXd \<Rightarrow> bool" where
  "storage_ok M = (length (m_data M) = m_rows M * m_cols M)"

definition coeff :: "MatrixXd \<Rightarrow> nat \<Rightarrow> nat \<Rightarrow> real" where
  "coeff M r c = m_data M ! (c * m_rows M + r)"

definition mat_of :: "nat \<Rightarrow> nat \<Rightarrow> (nat \<Rightarrow> nat \<Rightarrow> real) \<Rightarrow> MatrixXd" where
  "mat_of nr nc f =
     \<lparr>m_rows = nr, m_cols = nc,
      m_data = concat (map (\<lambda>c. map (\<lambda>r. f r c) [0..<nr]) [0..<nc])\<rparr>"

text \<open>\<^verbatim>\<open>T.setZero()\<close> on an \<open>nr\<close> by \<open>nc\<close> matrix, \<^verbatim>\<open>T(r, c) = x\<close>, and
  \<^verbatim>\<open>Identity()\<close>.\<close>

definition mat_setZero :: "nat \<Rightarrow> nat \<Rightarrow> MatrixXd" where
  "mat_setZero nr nc = \<lparr>m_rows = nr, m_cols = nc, m_data = replicate (nr * nc) 0\<rparr>"

definition set_coeff :: "MatrixXd \<Rightarrow> nat \<Rightarrow> nat \<Rightarrow> real \<Rightarrow> MatrixXd" where
  "set_coeff M r c x = M\<lparr>m_data := (m_data M)[c * m_rows M + r := x]\<rparr>"

definition mat_Identity :: "nat \<Rightarrow> MatrixXd" where
  "mat_Identity n = mat_of n n (\<lambda>r c. if r = c then 1 else 0)"

text \<open>The products, sums and differences of Eigen that the source uses. Eigen asserts
  that the sizes fit.\<close>

definition mat_vec :: "MatrixXd \<Rightarrow> VectorXd \<Rightarrow> error + VectorXd" where
  "mat_vec M v =
     (if m_cols M = length v
      then Inr (map (\<lambda>r. sum_list (map (\<lambda>c. coeff M r c * v ! c) [0..<m_cols M]))
                  [0..<m_rows M])
      else Inl EigenAssertion)"

definition scal_mat :: "real \<Rightarrow> MatrixXd \<Rightarrow> MatrixXd" where
  "scal_mat s M = M\<lparr>m_data := map (\<lambda>x. s * x) (m_data M)\<rparr>"

definition mat_neg :: "MatrixXd \<Rightarrow> MatrixXd" where
  "mat_neg M = M\<lparr>m_data := map uminus (m_data M)\<rparr>"

definition mat_sub :: "MatrixXd \<Rightarrow> MatrixXd \<Rightarrow> error + MatrixXd" where
  "mat_sub A B =
     (if m_rows A = m_rows B \<and> m_cols A = m_cols B
      then Inr (A\<lparr>m_data := map2 (\<lambda>x y. x - y) (m_data A) (m_data B)\<rparr>)
      else Inl EigenAssertion)"

definition mat_transpose :: "MatrixXd \<Rightarrow> MatrixXd" where
  "mat_transpose M = mat_of (m_cols M) (m_rows M) (\<lambda>r c. coeff M c r)"

definition scal_vec :: "real \<Rightarrow> VectorXd \<Rightarrow> VectorXd" where
  "scal_vec s v = map (\<lambda>x. s * x) v"

definition vec_scal :: "VectorXd \<Rightarrow> real \<Rightarrow> VectorXd" where
  "vec_scal v s = map (\<lambda>x. x * s) v"

definition vec_add :: "VectorXd \<Rightarrow> VectorXd \<Rightarrow> error + VectorXd" where
  "vec_add u v =
     (if length u = length v then Inr (map2 (\<lambda>x y. x + y) u v) else Inl EigenAssertion)"

text \<open>\<^verbatim>\<open>u * v.transpose()\<close>: a column times a row.\<close>

definition outer :: "VectorXd \<Rightarrow> VectorXd \<Rightarrow> MatrixXd" where
  "outer u v = mat_of (length u) (length v) (\<lambda>r c. u ! r * v ! c)"

text \<open>A vector passed where a \<^verbatim>\<open>MatrixXd\<close> is expected is a matrix of one column.\<close>

definition as_matrix :: "VectorXd \<Rightarrow> MatrixXd" where
  "as_matrix v = \<lparr>m_rows = length v, m_cols = 1, m_data = v\<rparr>"

text \<open>\<^verbatim>\<open>v[i]\<close> on a vector of Eigen, with the \<^verbatim>\<open>int\<close> index of the source.\<close>

definition vec_at :: "VectorXd \<Rightarrow> int \<Rightarrow> error + real" where
  "vec_at v i = (if 0 \<le> i \<and> i < int (length v) then Inr (v ! nat i) else Inl EigenAssertion)"

text \<open>
  \<^verbatim>\<open>v.resize(n)\<close> of Eigen on a dynamic vector: nothing happens when the size stays the
  same; otherwise the storage is allocated anew and its coefficients are not initialised.
  \<open>uninit\<close> is whatever the new storage holds.
\<close>

definition VectorXd_resize :: "(nat \<Rightarrow> real) \<Rightarrow> int \<Rightarrow> VectorXd \<Rightarrow> error + VectorXd" where
  "VectorXd_resize uninit n v =
     (if n < 0 then Inl EigenAssertion
      else if nat n = length v then Inr v
      else Inr (map uninit [0..<nat n]))"

text \<open>\<^verbatim>\<open>v.setZero(n)\<close>: resize to \<open>n\<close> and set every coefficient to zero.\<close>

definition VectorXd_setZero :: "int \<Rightarrow> error + VectorXd" where
  "VectorXd_setZero n = (if n < 0 then Inl EigenAssertion else Inr (replicate (nat n) 0))"

text \<open>\<^verbatim>\<open>v.segment(start, n)\<close>, read and assigned.\<close>

definition segment_ok :: "VectorXd \<Rightarrow> int \<Rightarrow> int \<Rightarrow> bool" where
  "segment_ok v start n = (0 \<le> start \<and> 0 \<le> n \<and> start \<le> int (length v) - n)"

definition segment :: "VectorXd \<Rightarrow> int \<Rightarrow> int \<Rightarrow> VectorXd" where
  "segment v start n = take (nat n) (drop (nat start) v)"

definition assign_segment :: "VectorXd \<Rightarrow> int \<Rightarrow> VectorXd \<Rightarrow> VectorXd" where
  "assign_segment v start xs = take (nat start) v @ xs @ drop (nat start + length xs) v"

section \<open>The constraint cases\<close>

datatype Constraint = UNIAXIAL_STRAIN | UNIAXIAL_STRESS | PLANE_STRAIN | PLANE_STRESS | FULL

text \<open>
  Modelled from the spec: \<^verbatim>\<open>Dim::Q\<close> of \<^verbatim>\<open>interfaces.h\<close>, which is not among the sources.
  The spec gives the reduced strain dimension as 1, 1, 3, 3 and 6. \<^verbatim>\<open>V<FULL>\<close> is the
  vector of 6 coefficients and \<^verbatim>\<open>M<FULL>\<close> the 6 by 6 matrix.
\<close>

fun Dim_Q :: "Constraint \<Rightarrow> nat" where
  "Dim_Q UNIAXIAL_STRAIN = 1"
| "Dim_Q UNIAXIAL_STRESS = 1"
| "Dim_Q PLANE_STRAIN = 3"
| "Dim_Q PLANE_STRESS = 3"
| "Dim_Q FULL = 6"

definition as_V_FULL :: "VectorXd \<Rightarrow> error + VectorXd" where
  "as_V_FULL v = (if length v = 6 then Inr v else Inl EigenAssertion)"

section \<open>The damage law\<close>

record DamageLawExponential =
  dl_k0 :: real
  dl_a :: real
  dl_b :: real

definition DamageLawExponential_evaluate :: "DamageLawExponential \<Rightarrow> real \<Rightarrow> real \<times> real" where
  "DamageLawExponential_evaluate law k =
     (if k \<le> dl_k0 law then (0, 0)
      else
        (let omega = 1 - dl_k0 law / k * (1 - dl_a law + dl_a law * exp (dl_b law * (dl_k0 law - k)));
             domega = dl_k0 law / k *
               ((1 / k + dl_b law) * dl_a law * exp (dl_b law * (dl_k0 law - k)) + (1 - dl_a law) / k)
         in (omega, domega)))"

section \<open>Invariants and the constraint transform\<close>

definition InvariantI1 :: "VectorXd \<Rightarrow> real \<times> VectorXd" where
  "InvariantI1 v = (v ! 0 + v ! 1 + v ! 2, [1, 1, 1, 0, 0, 0])"

definition InvariantJ2 :: "VectorXd \<Rightarrow> real \<times> VectorXd" where
  "InvariantJ2 v =
     (((v ! 0 - v ! 1) * (v ! 0 - v ! 1) + (v ! 1 - v ! 2) * (v ! 1 - v ! 2) +
       (v ! 2 - v ! 0) * (v ! 2 - v ! 0)) / 6 +
      0.25 * (v ! 3 * v ! 3 + v ! 4 * v ! 4 + v ! 5 * v ! 5),
      [(2 * v ! 0 - v ! 1 - v ! 2) / 3,
       (2 * v ! 1 - v ! 2 - v ! 0) / 3,
       (2 * v ! 2 - v ! 0 - v ! 1) / 3,
       0.5 * v ! 3,
       0.5 * v ! 4,
       0.5 * v ! 5])"

text \<open>Every \<^verbatim>\<open>T(r, c)\<close> written below lies inside the 6 by \<open>Dim_Q c\<close> matrix.\<close>

definition T3D :: "real \<Rightarrow> Constraint \<Rightarrow> MatrixXd" where
  "T3D nu c =
     (let T = mat_setZero 6 (Dim_Q c) in
      case c of
        UNIAXIAL_STRAIN \<Rightarrow> set_coeff T 0 0 1
      | UNIAXIAL_STRESS \<Rightarrow> set_coeff (set_coeff (set_coeff T 0 0 1) 1 0 (- nu)) 2 0 (- nu)
      | PLANE_STRAIN \<Rightarrow> set_coeff (set_coeff (set_coeff T 0 0 1) 1 1 1) 5 2 1
      | PLANE_STRESS \<Rightarrow>
          set_coeff
            (set_coeff
              (set_coeff (set_coeff (set_coeff T 0 0 1) 1 1 1) 2 0 (nu / (nu - 1)))
              2 1 (nu / (nu - 1)))
            5 2 1
      | FULL \<Rightarrow> mat_Identity 6)"

section \<open>The equivalent strain\<close>

record ModMisesEeq =
  mm_K1 :: real
  mm_K2 :: real
  mm_nu :: real
  mm_c :: Constraint
  mm_T3D :: MatrixXd

definition ModMisesEeq_init :: "real \<Rightarrow> real \<Rightarrow> Constraint \<Rightarrow> ModMisesEeq" where
  "ModMisesEeq_init k nu c =
     \<lparr>mm_K1 = (k - 1) / (2 * k * (1 - 2 * nu)),
      mm_K2 = 3 / (k * (1 + nu) * (1 + nu)),
      mm_nu = nu,
      mm_c = c,
      mm_T3D = T3D nu c\<rparr>"

definition ModMisesEeq_evaluate :: "ModMisesEeq \<Rightarrow> VectorXd \<Rightarrow> error + real \<times> VectorXd" where
  "ModMisesEeq_evaluate m strain =
     and_then (and_then (mat_vec (mm_T3D m) strain) as_V_FULL) (\<lambda>strain3D.
       let (I1, dI1) = InvariantI1 strain3D;
           (J2, dJ2) = InvariantJ2 strain3D;
           A = sqrt (mm_K1 m * mm_K1 m * I1 * I1 + mm_K2 m * J2) + 1 / 10 ^ 14;
           eeq = mm_K1 m * I1 + A;
           deeq_dI1 = mm_K1 m + mm_K1 m * mm_K1 m * I1 / A;
           deeq_dJ2 = mm_K2 m / (2 * A)
       in and_then (vec_add (scal_vec deeq_dI1 dI1) (scal_vec deeq_dJ2 dJ2)) (\<lambda>deeq.
          and_then (mat_vec (mat_transpose (mm_T3D m)) deeq) (\<lambda>g. Inr (eeq, g))))"

section \<open>The local law\<close>

record LocalDamage =
  ld_C :: MatrixXd
  ld_omega :: DamageLawExponential
  ld_eeq :: ModMisesEeq
  ld_kappa :: VectorXd

text \<open>
  The elasticity matrix \<^verbatim>\<open>C(E, nu, c)\<close> is a function of \<^verbatim>\<open>interfaces.h\<close>, which is not
  among the sources: the constructors take it as the parameter \<open>C\<close>.
\<close>

definition LocalDamage_init ::
  "(real \<Rightarrow> real \<Rightarrow> Constraint \<Rightarrow> MatrixXd) \<Rightarrow>
   real \<Rightarrow> real \<Rightarrow> Constraint \<Rightarrow> real \<Rightarrow> real \<Rightarrow> real \<Rightarrow> real \<Rightarrow> LocalDamage" where
  "LocalDamage_init C E nu c ft alpha gf k =
     \<lparr>ld_C = C E nu c,
      ld_omega = \<lparr>dl_k0 = ft / E, dl_a = alpha, dl_b = ft / gf\<rparr>,
      ld_eeq = ModMisesEeq_init k nu c,
      ld_kappa = []\<rparr>"

definition LocalDamage_resize :: "(nat \<Rightarrow> real) \<Rightarrow> int \<Rightarrow> LocalDamage \<Rightarrow> error + LocalDamage" where
  "LocalDamage_resize uninit n law =
     and_then (VectorXd_resize uninit n (ld_kappa law)) (\<lambda>v. Inr (law\<lparr>ld_kappa := v\<rparr>))"

definition LocalDamage_evaluate_kappa :: "real \<Rightarrow> real \<Rightarrow> real \<times> real" where
  "LocalDamage_evaluate_kappa eeq kappa = (if eeq \<ge> kappa then (eeq, 1) else (kappa, 0))"

text \<open>\<open>evaluate\<close> is not a const member: the model returns the law as the call leaves it,
  next to the stress and the tangent.\<close>

definition LocalDamage_evaluate ::
  "LocalDamage \<Rightarrow> VectorXd \<Rightarrow> int \<Rightarrow> error + (VectorXd \<times> MatrixXd) \<times> LocalDamage" where
  "LocalDamage_evaluate law strain i =
     and_then (ModMisesEeq_evaluate (ld_eeq law) strain) (\<lambda>(eeq, deeq).
     and_then (vec_at (ld_kappa law) i) (\<lambda>stored.
       let (kappa, dkappa) = LocalDamage_evaluate_kappa eeq stored;
           (omega, domega) = DamageLawExponential_evaluate (ld_omega law) kappa
       in and_then (mat_vec (scal_mat (1 - omega) (ld_C law)) strain) (\<lambda>stress.
          and_then (mat_vec (ld_C law) strain) (\<lambda>Cs.
          and_then (mat_sub (scal_mat (1 - omega) (ld_C law))
                      (outer (vec_scal (vec_scal Cs domega) dkappa) deeq)) (\<lambda>tangent.
          Inr ((stress, tangent), law))))))"

definition LocalDamage_qdim :: "LocalDamage \<Rightarrow> nat" where
  "LocalDamage_qdim law = m_rows (ld_C law)"

definition LocalDamage_update :: "LocalDamage \<Rightarrow> VectorXd \<Rightarrow> int \<Rightarrow> error + LocalDamage" where
  "LocalDamage_update law strain i =
     and_then (ModMisesEeq_evaluate (ld_eeq law) strain) (\<lambda>(eeq, deeq).
     and_then (vec_at (ld_kappa law) i) (\<lambda>stored.
       let kappa = fst (LocalDamage_evaluate_kappa eeq stored)
       in Inr (law\<lparr>ld_kappa := (ld_kappa law)[nat i := kappa]\<rparr>)))"

text \<open>A sequence of \<open>update\<close> calls, each with its strain and its point.\<close>

fun LocalDamage_updates :: "LocalDamage \<Rightarrow> (VectorXd \<times> int) list \<Rightarrow> error + LocalDamage" where
  "LocalDamage_updates law [] = Inr law"
| "LocalDamage_updates law ((strain, i) # rest) =
     and_then (LocalDamage_update law strain i) (\<lambda>law'. LocalDamage_updates law' rest)"

section \<open>The storage of one quantity\<close>

record QValues =
  q_rows :: int
  q_cols :: int
  q_data :: VectorXd

definition QValues_init :: "int \<Rightarrow> int \<Rightarrow> QValues" where
  "QValues_init rows cols = \<lparr>q_rows = rows, q_cols = cols, q_data = []\<rparr>"

definition QValues_Resize :: "int \<Rightarrow> QValues \<Rightarrow> error + QValues" where
  "QValues_Resize n q =
     and_then (VectorXd_setZero (n * q_rows q * q_cols q)) (\<lambda>v. Inr (q\<lparr>q_data := v\<rparr>))"

text \<open>\<^verbatim>\<open>Set(double value, int i)\<close>.\<close>

definition QValues_Set_scalar :: "real \<Rightarrow> int \<Rightarrow> QValues \<Rightarrow> error + QValues" where
  "QValues_Set_scalar v i q =
     (if q_rows q \<noteq> 1 then Inl AssertionFailed
      else if q_cols q \<noteq> 1 then Inl AssertionFailed
      else if 0 \<le> i \<and> i < int (length (q_data q))
        then Inr (q\<lparr>q_data := (q_data q)[nat i := v]\<rparr>)
        else Inl EigenAssertion)"

text \<open>\<^verbatim>\<open>Set(Eigen::MatrixXd value, int i)\<close>.\<close>

definition QValues_Set :: "MatrixXd \<Rightarrow> int \<Rightarrow> QValues \<Rightarrow> error + QValues" where
  "QValues_Set v i q =
     (if int (m_rows v) \<noteq> q_rows q then Inl AssertionFailed
      else if int (m_cols v) \<noteq> q_cols q then Inl AssertionFailed
      else if segment_ok (q_data q) (q_rows q * q_cols q * i) (q_rows q * q_cols q)
        then Inr (q\<lparr>q_data := assign_segment (q_data q) (q_rows q * q_cols q * i) (m_data v)\<rparr>)
        else Inl EigenAssertion)"

definition QValues_GetScalar :: "int \<Rightarrow> QValues \<Rightarrow> error + real" where
  "QValues_GetScalar i q =
     (if q_rows q \<noteq> 1 then Inl AssertionFailed
      else if q_cols q \<noteq> 1 then Inl AssertionFailed
      else vec_at (q_data q) i)"

definition QValues_Get :: "int \<Rightarrow> QValues \<Rightarrow> error + MatrixXd" where
  "QValues_Get i q =
     (if segment_ok (q_data q) (q_rows q * q_cols q * i) (q_rows q * q_cols q)
         \<and> 0 \<le> q_rows q \<and> 0 \<le> q_cols q
      then Inr \<lparr>m_rows = nat (q_rows q), m_cols = nat (q_cols q),
                m_data = segment (q_data q) (q_rows q * q_cols q * i) (q_rows q * q_cols q)\<rparr>
      else Inl EigenAssertion)"

section \<open>The gradient-enhanced law\<close>

datatype Q = SIGMA_Q | DSIGMA_DEPS | EEQ | DEEQ | DSIGMA_DE | LAST

text \<open>The values of the enumeration: \<^verbatim>\<open>SIGMA = 1\<close> and the rest in order. \<open>SIGMA\<close> is a
  binder of HOL, so the first name carries a suffix.\<close>

fun Q_index :: "Q \<Rightarrow> nat" where
  "Q_index SIGMA_Q = 1"
| "Q_index DSIGMA_DEPS = 2"
| "Q_index EEQ = 3"
| "Q_index DEEQ = 4"
| "Q_index DSIGMA_DE = 5"
| "Q_index LAST = 6"

text \<open>\<^verbatim>\<open>out[what] = q\<close> and \<^verbatim>\<open>out[what].Set(...)\<close> on the \<^verbatim>\<open>std::vector<QValues>\<close>.\<close>

definition out_put :: "QValues list \<Rightarrow> Q \<Rightarrow> QValues \<Rightarrow> error + QValues list" where
  "out_put out what q =
     (if Q_index what < length out then Inr (out[Q_index what := q]) else Inl OutOfBounds)"

definition out_apply ::
  "QValues list \<Rightarrow> Q \<Rightarrow> (QValues \<Rightarrow> error + QValues) \<Rightarrow> error + QValues list" where
  "out_apply out what f =
     (if Q_index what < length out
      then and_then (f (out ! Q_index what)) (\<lambda>q. Inr (out[Q_index what := q]))
      else Inl OutOfBounds)"

record GradientDamage =
  gd_C :: MatrixXd
  gd_omega :: DamageLawExponential
  gd_strain_norm :: ModMisesEeq
  gd_kappa :: QValues

definition GradientDamage_init ::
  "(real \<Rightarrow> real \<Rightarrow> Constraint \<Rightarrow> MatrixXd) \<Rightarrow>
   real \<Rightarrow> real \<Rightarrow> Constraint \<Rightarrow> real \<Rightarrow> real \<Rightarrow> real \<Rightarrow> real \<Rightarrow> GradientDamage" where
  "GradientDamage_init C E nu c ft alpha beta k =
     \<lparr>gd_C = C E nu c,
      gd_omega = \<lparr>dl_k0 = ft / E, dl_a = alpha, dl_b = beta\<rparr>,
      gd_strain_norm = ModMisesEeq_init k nu c,
      gd_kappa = QValues_init 1 1\<rparr>"

definition GradientDamage_AllocateOutputs ::
  "GradientDamage \<Rightarrow> QValues list \<Rightarrow> error + QValues list" where
  "GradientDamage_AllocateOutputs law out =
     (let q = int (m_rows (gd_C law)) in
      and_then (out_put out EEQ (QValues_init 1 1)) (\<lambda>out.
      and_then (out_put out DEEQ (QValues_init q 1)) (\<lambda>out.
      and_then (out_put out SIGMA_Q (QValues_init q 1)) (\<lambda>out.
      and_then (out_put out DSIGMA_DE (QValues_init q 1)) (\<lambda>out.
      out_put out DSIGMA_DEPS (QValues_init q q))))))"

definition GradientDamage_resize :: "int \<Rightarrow> GradientDamage \<Rightarrow> error + GradientDamage" where
  "GradientDamage_resize n law =
     and_then (QValues_Resize n (gd_kappa law)) (\<lambda>q. Inr (law\<lparr>gd_kappa := q\<rparr>))"

definition GradientDamage_evaluate_kappa :: "real \<Rightarrow> real \<Rightarrow> real \<times> real" where
  "GradientDamage_evaluate_kappa eeq kappa = (if eeq \<ge> kappa then (eeq, 1) else (kappa, 0))"

text \<open>\<open>evaluate\<close> writes into \<open>out\<close>; it is not a const member, so the model returns the
  law as the call leaves it, next to the outputs.\<close>

definition GradientDamage_evaluate ::
  "GradientDamage \<Rightarrow> VectorXd \<Rightarrow> real \<Rightarrow> QValues list \<Rightarrow> int \<Rightarrow>
   error + QValues list \<times> GradientDamage" where
  "GradientDamage_evaluate law strain e out i =
     and_then (QValues_GetScalar i (gd_kappa law)) (\<lambda>stored.
       let (kappa, dkappa) = GradientDamage_evaluate_kappa e stored;
           (omega, domega) = DamageLawExponential_evaluate (gd_omega law) kappa
       in and_then (ModMisesEeq_evaluate (gd_strain_norm law) strain) (\<lambda>(eeq, deeq).
          and_then (out_apply out EEQ (QValues_Set_scalar eeq i)) (\<lambda>out.
          and_then (mat_vec (scal_mat (1 - omega) (gd_C law)) strain) (\<lambda>stress.
          and_then (out_apply out SIGMA_Q (QValues_Set (as_matrix stress) i)) (\<lambda>out.
          and_then (out_apply out DEEQ (QValues_Set (as_matrix deeq) i)) (\<lambda>out.
          and_then (mat_vec (mat_neg (gd_C law)) strain) (\<lambda>mCs.
          and_then (out_apply out DSIGMA_DE
                      (QValues_Set (as_matrix (vec_scal (vec_scal mCs domega) dkappa)) i)) (\<lambda>out.
          and_then (out_apply out DSIGMA_DEPS
                      (QValues_Set (scal_mat (1 - omega) (gd_C law)) i)) (\<lambda>out.
          Inr (out, law))))))))))"

definition GradientDamage_qdim :: "GradientDamage \<Rightarrow> nat" where
  "GradientDamage_qdim law = m_rows (gd_C law)"

definition GradientDamage_update ::
  "GradientDamage \<Rightarrow> VectorXd \<Rightarrow> real \<Rightarrow> int \<Rightarrow> error + GradientDamage" where
  "GradientDamage_update law strain neeq i =
     and_then (QValues_GetScalar i (gd_kappa law)) (\<lambda>stored.
     and_then (QValues_Set_scalar (fst (GradientDamage_evaluate_kappa neeq stored)) i (gd_kappa law))
       (\<lambda>q. Inr (law\<lparr>gd_kappa := q\<rparr>)))"

text \<open>A sequence of \<open>update\<close> calls, each with its strain, its nonlocal equivalent
  strain and its point.\<close>

fun GradientDamage_updates ::
  "GradientDamage \<Rightarrow> (VectorXd \<times> real \<times> int) list \<Rightarrow> error + GradientDamage" where
  "GradientDamage_updates law [] = Inr law"
| "GradientDamage_updates law ((strain, neeq, i) # rest) =
     and_then (GradientDamage_update law strain neeq i) (\<lambda>law'. GradientDamage_updates law' rest)"

section \<open>The batch driver\<close>

text \<open>
  \<open>IpLoop\<close> holds the law by reference and owns the outputs; here the law it refers to
  is a field of the record. \<^verbatim>\<open>_outputs.resize(Q::LAST)\<close> makes \<open>LAST\<close> containers, each
  value-initialised (\<open>QValues_default\<close>: no rows, no columns, no data).
\<close>

record IpLoop =
  ip_law :: GradientDamage
  ip_outputs :: "QValues list"
  ip_n :: int

definition QValues_default :: QValues where
  "QValues_default = \<lparr>q_rows = 0, q_cols = 0, q_data = []\<rparr>"

definition IpLoop_init :: "GradientDamage \<Rightarrow> error + IpLoop" where
  "IpLoop_init law =
     and_then (GradientDamage_AllocateOutputs law (replicate (Q_index LAST) QValues_default))
       (\<lambda>out. Inr \<lparr>ip_law = law, ip_outputs = out, ip_n = 0\<rparr>)"

text \<open>\<^verbatim>\<open>for (auto& qvalues : _outputs) qvalues.Resize(n);\<close>\<close>

fun Resize_all :: "int \<Rightarrow> QValues list \<Rightarrow> error + QValues list" where
  "Resize_all n [] = Inr []"
| "Resize_all n (q # qs) =
     and_then (QValues_Resize n q) (\<lambda>q'.
     and_then (Resize_all n qs) (\<lambda>qs'. Inr (q' # qs')))"

definition IpLoop_resize :: "int \<Rightarrow> IpLoop \<Rightarrow> error + IpLoop" where
  "IpLoop_resize n loop =
     and_then (Resize_all n (ip_outputs loop)) (\<lambda>out.
     and_then (GradientDamage_resize n (ip_law loop)) (\<lambda>law.
     Inr \<lparr>ip_law = law, ip_outputs = out, ip_n = n\<rparr>))"

text \<open>\<^verbatim>\<open>_outputs.at(what).data\<close>: \<^verbatim>\<open>at\<close> throws past the end.\<close>

definition IpLoop_Get :: "Q \<Rightarrow> IpLoop \<Rightarrow> error + VectorXd" where
  "IpLoop_Get what loop =
     (if Q_index what < length (ip_outputs loop)
      then Inr (q_data (ip_outputs loop ! Q_index what)) else Inl OutOfBounds)"

definition segment_at :: "VectorXd \<Rightarrow> int \<Rightarrow> int \<Rightarrow> error + VectorXd" where
  "segment_at v start n =
     (if segment_ok v start n then Inr (segment v start n) else Inl EigenAssertion)"

text \<open>The loops \<^verbatim>\<open>for (int i = 0; i < _n; ++i)\<close> of \<open>evaluate\<close> and \<open>update\<close>, from
  point \<open>i\<close> on; \<open>q\<close> is \<^verbatim>\<open>_law.qdim()\<close>.\<close>

function IpLoop_evaluate_from ::
  "VectorXd \<Rightarrow> VectorXd \<Rightarrow> int \<Rightarrow> int \<Rightarrow> IpLoop \<Rightarrow> error + IpLoop" where
  "IpLoop_evaluate_from all_strains all_neeq q i loop =
     (if i < ip_n loop
      then and_then (segment_at all_strains (i * q) q) (\<lambda>strain.
           and_then (vec_at all_neeq i) (\<lambda>neeq.
           and_then (GradientDamage_evaluate (ip_law loop) strain neeq (ip_outputs loop) i)
             (\<lambda>(out, law).
           IpLoop_evaluate_from all_strains all_neeq q (i + 1)
             \<lparr>ip_law = law, ip_outputs = out, ip_n = ip_n loop\<rparr>)))
      else Inr loop)"
  by pat_completeness auto
termination
  by (relation "measure (\<lambda>(all_strains, all_neeq, q, i, loop). nat (ip_n loop - i))") auto

definition IpLoop_evaluate :: "VectorXd \<Rightarrow> VectorXd \<Rightarrow> IpLoop \<Rightarrow> error + IpLoop" where
  "IpLoop_evaluate all_strains all_neeq loop =
     IpLoop_evaluate_from all_strains all_neeq (int (GradientDamage_qdim (ip_law loop))) 0 loop"

function IpLoop_update_from ::
  "VectorXd \<Rightarrow> VectorXd \<Rightarrow> int \<Rightarrow> int \<Rightarrow> IpLoop \<Rightarrow> error + IpLoop" where
  "IpLoop_update_from all_strains all_neeq q i loop =
     (if i < ip_n loop
      then and_then (segment_at all_strains (i * q) q) (\<lambda>strain.
           and_then (vec_at all_neeq i) (\<lambda>neeq.
           and_then (GradientDamage_update (ip_law loop) strain neeq i) (\<lambda>law.
           IpLoop_update_from all_strains all_neeq q (i + 1) (loop\<lparr>ip_law := law\<rparr>))))
      else Inr loop)"
  by pat_completeness auto
termination
  by (relation "measure (\<lambda>(all_strains, all_neeq, q, i, loop). nat (ip_n loop - i))") auto

definition IpLoop_update :: "VectorXd \<Rightarrow> VectorXd \<Rightarrow> IpLoop \<Rightarrow> error + IpLoop" where
  "IpLoop_update all_strains all_neeq loop =
     IpLoop_update_from all_strains all_neeq (int (GradientDamage_qdim (ip_law loop))) 0 loop"

section \<open>Auxiliary notions and example laws\<close>

text \<open>The history \<open>new\<close> is nowhere below the history \<open>old\<close>.\<close>

definition kappa_le :: "VectorXd \<Rightarrow> VectorXd \<Rightarrow> bool" where
  "kappa_le old new = (length new = length old \<and> (\<forall>j < length old. old ! j \<le> new ! j))"

text \<open>The factor \<open>1 - a + a * exp (b * (k0 - k))\<close> of the softening curve.\<close>

definition softening :: "DamageLawExponential \<Rightarrow> real \<Rightarrow> real" where
  "softening law k = 1 - dl_a law + dl_a law * exp (dl_b law * (dl_k0 law - k))"

text \<open>
  Concrete laws on which the statements are tried. \<open>C_example\<close> stands for the elasticity
  matrix of \<^verbatim>\<open>interfaces.h\<close>: \<open>E\<close> on the diagonal of a square matrix of the reduced
  dimension. \<open>local_example\<close> is a local law with one fresh point; \<open>gradient_example\<close>
  is a gradient-enhanced law under plane strain with one fresh point, and \<open>out_example\<close>
  its outputs: the law and the outputs of an \<open>IpLoop\<close> after \<open>resize 1\<close>
  (\<open>IpLoop_example_reached\<close> below).
\<close>

definition C_example :: "real \<Rightarrow> real \<Rightarrow> Constraint \<Rightarrow> MatrixXd" where
  "C_example E nu c = mat_of (Dim_Q c) (Dim_Q c) (\<lambda>r c. if r = c then E else 0)"

definition local_example :: LocalDamage where
  "local_example =
     (LocalDamage_init C_example 1 0 UNIAXIAL_STRAIN 2 (1 / 2) 1 1)\<lparr>ld_kappa := [0]\<rparr>"

definition gradient_example :: GradientDamage where
  "gradient_example =
     (GradientDamage_init C_example 1 0 PLANE_STRAIN 1 (1 / 2) 0 1)
       \<lparr>gd_kappa := \<lparr>q_rows = 1, q_cols = 1, q_data = [0]\<rparr>\<rparr>"

definition out_example :: "QValues list" where
  "out_example =
     [QValues_init 0 0,
      \<lparr>q_rows = 3, q_cols = 1, q_data = [0, 0, 0]\<rparr>,
      \<lparr>q_rows = 3, q_cols = 3, q_data = [0, 0, 0, 0, 0, 0, 0, 0, 0]\<rparr>,
      \<lparr>q_rows = 1, q_cols = 1, q_data = [0]\<rparr>,
      \<lparr>q_rows = 3, q_cols = 1, q_data = [0, 0, 0]\<rparr>,
      \<lparr>q_rows = 3, q_cols = 1, q_data = [0, 0, 0]\<rparr>]"

definition loop_example :: IpLoop where
  "loop_example = \<lparr>ip_law = gradient_example, ip_outputs = out_example, ip_n = 1\<rparr>"

section \<open>Double precision\<close>

text \<open>
  The second reading of a \<^verbatim>\<open>double\<close>: IEEE 754 binary64 with rounding to nearest, ties
  to even. \<open>binade x\<close> is the exponent \<open>e\<close> with \<open>2\<^sup>e \<le> \<bar>x\<bar> < 2\<^sup>e\<^sup>+\<^sup>1\<close>; the doubles of that
  binade are the multiples of \<open>2\<^sup>e\<^sup>-\<^sup>5\<^sup>2\<close>, and \<open>binary64 x\<close> is the one nearest to \<open>x\<close>, the
  one with the even significand when two are equally near. A real \<open>x\<close> is a double when
  \<open>binary64 x = x\<close>. The exponent is not bounded: below \<open>2\<^sup>-\<^sup>1\<^sup>0\<^sup>2\<^sup>2\<close> and above \<open>2\<^sup>1\<^sup>0\<^sup>2\<^sup>4\<close> the
  hardware rounds differently (subnormal numbers, infinity), and NaN has no counterpart
  here.
\<close>

definition round_even :: "real \<Rightarrow> int" where
  "round_even y =
     (if y - of_int \<lfloor>y\<rfloor> < 1 / 2 then \<lfloor>y\<rfloor>
      else if 1 / 2 < y - of_int \<lfloor>y\<rfloor> then \<lfloor>y\<rfloor> + 1
      else if even \<lfloor>y\<rfloor> then \<lfloor>y\<rfloor> else \<lfloor>y\<rfloor> + 1)"

definition binade :: "real \<Rightarrow> int" where
  "binade x = \<lfloor>log 2 \<bar>x\<bar>\<rfloor>"

definition binary64 :: "real \<Rightarrow> real" where
  "binary64 x =
     (if x = 0 then 0
      else (let u = 2 powi (\<lfloor>log 2 \<bar>x\<bar>\<rfloor> - 52)
            in sgn x * (u * of_int (round_even (\<bar>x\<bar> / u)))))"

abbreviation fl :: "real \<Rightarrow> real" where
  "fl \<equiv> binary64"

text \<open>
  \<^verbatim>\<open>DamageLawExponential::evaluate\<close> with every operation rounded, in the order in which
  C++ evaluates the two expressions. The standard does not say how \<^verbatim>\<open>std::exp\<close> rounds, so
  the exponential of the library is the parameter \<open>fexp\<close>. \<open>exp_d\<close> is the correctly
  rounded one. \<open>exp_like\<close> holds what the statements below need of \<open>fexp\<close>: on arguments
  that are not positive its values lie between 0 and 1 and do not decrease with the
  argument. The fusing of a product and a sum into one rounded operation, which a
  compiler may choose, is not modelled.
\<close>

definition DamageLawExponential_evaluate_d ::
  "(real \<Rightarrow> real) \<Rightarrow> DamageLawExponential \<Rightarrow> real \<Rightarrow> real \<times> real" where
  "DamageLawExponential_evaluate_d fexp law k =
     (if k \<le> dl_k0 law then (0, 0)
      else
        (let e = fexp (fl (dl_b law * fl (dl_k0 law - k)));
             omega = fl (1 - fl (fl (dl_k0 law / k) * fl (fl (1 - dl_a law) + fl (dl_a law * e))));
             domega = fl (fl (dl_k0 law / k) *
               fl (fl (fl (fl (fl (1 / k) + dl_b law) * dl_a law) * e) + fl (fl (1 - dl_a law) / k)))
         in (omega, domega)))"

definition exp_d :: "real \<Rightarrow> real" where
  "exp_d x = fl (exp x)"

definition exp_like :: "(real \<Rightarrow> real) \<Rightarrow> bool" where
  "exp_like fexp =
     ((\<forall>x \<le> 0. 0 \<le> fexp x \<and> fexp x \<le> 1)
      \<and> (\<forall>x y. x \<le> y \<and> y \<le> 0 \<longrightarrow> fexp x \<le> fexp y))"

text \<open>The rounded factor \<open>1 - a + a * exp (b * (k0 - k))\<close> of the softening curve.\<close>

definition softening_d :: "(real \<Rightarrow> real) \<Rightarrow> DamageLawExponential \<Rightarrow> real \<Rightarrow> real" where
  "softening_d fexp law k =
     fl (fl (1 - dl_a law) + fl (dl_a law * fexp (fl (dl_b law * fl (dl_k0 law - k)))))"

text \<open>
  The product of a matrix and a vector with every operation rounded: each coefficient is
  the sum of the products along its row, taken from the left. Eigen does not fix the
  order of that sum; no statement below depends on it.
\<close>

definition mat_vec_d :: "MatrixXd \<Rightarrow> VectorXd \<Rightarrow> error + VectorXd" where
  "mat_vec_d M v =
     (if m_cols M = length v
      then Inr (map (\<lambda>r. foldl (\<lambda>acc c. fl (acc + fl (coeff M r c * v ! c))) 0 [0..<m_cols M])
                  [0..<m_rows M])
      else Inl EigenAssertion)"

text \<open>\<^verbatim>\<open>InvariantI1\<close>, \<^verbatim>\<open>InvariantJ2\<close> and \<^verbatim>\<open>T3D\<close> with every operation rounded.\<close>

definition InvariantI1_d :: "VectorXd \<Rightarrow> real \<times> VectorXd" where
  "InvariantI1_d v = (fl (fl (v ! 0 + v ! 1) + v ! 2), [1, 1, 1, 0, 0, 0])"

definition InvariantJ2_d :: "VectorXd \<Rightarrow> real \<times> VectorXd" where
  "InvariantJ2_d v =
     (fl (fl (fl (fl (fl (fl (v ! 0 - v ! 1) * fl (v ! 0 - v ! 1))
                    + fl (fl (v ! 1 - v ! 2) * fl (v ! 1 - v ! 2)))
               + fl (fl (v ! 2 - v ! 0) * fl (v ! 2 - v ! 0))) / 6)
        + fl (0.25 * fl (fl (fl (v ! 3 * v ! 3) + fl (v ! 4 * v ! 4)) + fl (v ! 5 * v ! 5)))),
      [fl (fl (fl (fl (2 * v ! 0) - v ! 1) - v ! 2) / 3),
       fl (fl (fl (fl (2 * v ! 1) - v ! 2) - v ! 0) / 3),
       fl (fl (fl (fl (2 * v ! 2) - v ! 0) - v ! 1) / 3),
       fl (0.5 * v ! 3),
       fl (0.5 * v ! 4),
       fl (0.5 * v ! 5)])"



definition ModMisesEeq_evaluate_d :: "ModMisesEeq \<Rightarrow> VectorXd \<Rightarrow> error + real \<times> VectorXd" where
  "ModMisesEeq_evaluate_d m strain =
     and_then (and_then (mat_vec_d (mm_T3D m) strain) as_V_FULL) (\<lambda>strain3D.
       let (I1, dI1) = InvariantI1_d strain3D;
           (J2, dJ2) = InvariantJ2_d strain3D;
           A = fl (fl (sqrt (fl (fl (fl (fl (mm_K1 m * mm_K1 m) * I1) * I1) + fl (mm_K2 m * J2))))
                   + fl (1 / 10 ^ 14));
           eeq = fl (fl (mm_K1 m * I1) + A);
           deeq_dI1 = fl (mm_K1 m + fl (fl (fl (mm_K1 m * mm_K1 m) * I1) / A));
           deeq_dJ2 = fl (mm_K2 m / fl (2 * A));
           deeq = map2 (\<lambda>x y. fl (fl (deeq_dI1 * x) + fl (deeq_dJ2 * y))) dI1 dJ2
       in and_then (mat_vec_d (mat_transpose (mm_T3D m)) deeq) (\<lambda>g. Inr (eeq, g)))"

text \<open>The norm \<open>A\<close> and the value \<open>eeq\<close> that \<open>ModMisesEeq_evaluate_d\<close> computes from the 3D
  strain \<open>v\<close> (\<open>ModMisesEeq_evaluate_d_returns\<close> below).\<close>

definition norm_A_d :: "ModMisesEeq \<Rightarrow> VectorXd \<Rightarrow> real" where
  "norm_A_d m v =
     fl (fl (sqrt (fl (fl (fl (fl (mm_K1 m * mm_K1 m) * fst (InvariantI1_d v)) * fst (InvariantI1_d v))
                        + fl (mm_K2 m * fst (InvariantJ2_d v)))))
         + fl (1 / 10 ^ 14))"

definition eeq_d :: "ModMisesEeq \<Rightarrow> VectorXd \<Rightarrow> real" where
  "eeq_d m v = fl (fl (mm_K1 m * fst (InvariantI1_d v)) + norm_A_d m v)"

text \<open>
  The range of a C++ \<^verbatim>\<open>int\<close> of 32 bits. The indices and sizes of \<^verbatim>\<open>QValues\<close> are
  \<^verbatim>\<open>int\<close>s and their products are taken in \<^verbatim>\<open>int\<close>; the model has them in \<^typ>\<open>int\<close>,
  and a product outside this range is outside the model.
\<close>

definition int32 :: "int \<Rightarrow> bool" where
  "int32 x \<longleftrightarrow> - (2 ^ 31) \<le> x \<and> x < 2 ^ 31"

section \<open>Sequencing and the containers\<close>

lemma and_then_Inr_iff: "and_then r f = Inr y \<longleftrightarrow> (\<exists>x. r = Inr x \<and> f x = Inr y)"
  by (cases r) (simp_all add: and_then_def)

lemma and_then_simps: "and_then (Inr x) f = f x" "and_then (Inl e) f = Inl e"
  by (simp_all add: and_then_def)

lemmas eigen_defs = mat_vec_def coeff_def mat_of_def mat_setZero_def set_coeff_def mat_Identity_def
  scal_mat_def mat_neg_def mat_sub_def mat_transpose_def scal_vec_def vec_scal_def vec_add_def
  outer_def as_matrix_def as_V_FULL_def

lemma vec_at_Inr_iff: "vec_at v i = Inr x \<longleftrightarrow> 0 \<le> i \<and> i < int (length v) \<and> x = v ! nat i"
  by (auto simp: vec_at_def)

lemma mat_vec_Inr_iff:
  "mat_vec M v = Inr w \<longleftrightarrow> m_cols M = length v \<and>
     w = map (\<lambda>r. sum_list (map (\<lambda>c. coeff M r c * v ! c) [0..<m_cols M])) [0..<m_rows M]"
  by (auto simp: mat_vec_def)

lemma mat_vec_length: "mat_vec M v = Inr w \<Longrightarrow> length w = m_rows M"
  by (auto simp: mat_vec_Inr_iff)

lemma vec_scal_length: "length (vec_scal v s) = length v"
  by (simp add: vec_scal_def)

lemma outer_dims: "m_rows (outer u v) = length u" "m_cols (outer u v) = length v"
  by (simp_all add: outer_def mat_of_def)

lemma concat_map_replicate:
  "concat (map (\<lambda>c. replicate n x) cs) = replicate (length cs * n) x"
  by (induction cs) (simp_all add: replicate_add)

lemma outer_zero:
  assumes "\<forall>r < length u. u ! r = 0"
  shows "m_data (outer u v) = replicate (length v * length u) 0"
proof -
  have "map (\<lambda>r. u ! r * v ! c) [0..<length u] = replicate (length u) 0" for c
  proof (rule nth_equalityI)
    show "length (map (\<lambda>r. u ! r * v ! c) [0..<length u]) = length (replicate (length u) (0::real))"
      by simp
  next
    fix j
    assume "j < length (map (\<lambda>r. u ! r * v ! c) [0..<length u])"
    then show "map (\<lambda>r. u ! r * v ! c) [0..<length u] ! j = replicate (length u) 0 ! j"
      using assms by simp
  qed
  then show ?thesis by (simp add: outer_def mat_of_def concat_map_replicate)
qed

lemma map2_minus_zero:
  fixes xs :: "real list"
  shows "length xs \<le> n \<Longrightarrow> map2 (\<lambda>x y. x - y) xs (replicate n 0) = xs"
proof (induction xs arbitrary: n)
  case Nil
  then show ?case by simp
next
  case (Cons x xs)
  then obtain m where "n = Suc m" by (cases n) auto
  with Cons show ?case by simp
qed

lemma assign_segment_length:
  "nat start + length xs \<le> length v \<Longrightarrow> length (assign_segment v start xs) = length v"
  by (simp add: assign_segment_def)

lemma segment_assign_segment:
  "nat start + length xs \<le> length v \<Longrightarrow> nat n = length xs
     \<Longrightarrow> segment (assign_segment v start xs) start n = xs"
  by (simp add: assign_segment_def segment_def)

lemma T3D_rows: "m_rows (T3D nu c) = 6"
  by (cases c) (simp_all add: T3D_def eigen_defs)

lemma T3D_cols: "m_cols (T3D nu c) = Dim_Q c"
  by (cases c) (simp_all add: T3D_def eigen_defs)

section \<open>The storage of one quantity: reading and writing\<close>

lemma QValues_GetScalar_Inr_iff:
  "QValues_GetScalar i q = Inr x \<longleftrightarrow>
     q_rows q = 1 \<and> q_cols q = 1 \<and> 0 \<le> i \<and> i < int (length (q_data q)) \<and> x = q_data q ! nat i"
  by (auto simp: QValues_GetScalar_def vec_at_Inr_iff)

lemma QValues_Set_scalar_Inr_iff:
  "QValues_Set_scalar v i q = Inr q' \<longleftrightarrow>
     q_rows q = 1 \<and> q_cols q = 1 \<and> 0 \<le> i \<and> i < int (length (q_data q))
     \<and> q' = q\<lparr>q_data := (q_data q)[nat i := v]\<rparr>"
  by (auto simp: QValues_Set_scalar_def)

lemma QValues_Set_Inr_iff:
  "QValues_Set v i q = Inr q' \<longleftrightarrow>
     int (m_rows v) = q_rows q \<and> int (m_cols v) = q_cols q
     \<and> segment_ok (q_data q) (q_rows q * q_cols q * i) (q_rows q * q_cols q)
     \<and> q' = q\<lparr>q_data := assign_segment (q_data q) (q_rows q * q_cols q * i) (m_data v)\<rparr>"
  by (auto simp: QValues_Set_def)

text \<open>What \<open>Set\<close> wrote at point \<open>i\<close>, \<open>Get\<close> reads back.\<close>

lemma QValues_Get_Set:
  assumes wrote: "QValues_Set v i q = Inr q'" and ok: "storage_ok v"
  shows "QValues_Get i q' = Inr v"
proof -
  let ?n = "q_rows q * q_cols q"
  from wrote have rows: "int (m_rows v) = q_rows q" and cols: "int (m_cols v) = q_cols q"
    and seg: "segment_ok (q_data q) (?n * i) ?n"
    and q': "q' = q\<lparr>q_data := assign_segment (q_data q) (?n * i) (m_data v)\<rparr>"
    by (simp_all add: QValues_Set_Inr_iff)
  have n: "?n = int (length (m_data v))"
    using ok rows cols by (simp add: storage_ok_def flip: rows cols)
  have fits: "nat (?n * i) + length (m_data v) \<le> length (q_data q)"
    using seg n by (simp add: segment_ok_def) linarith
  have len: "length (q_data q') = length (q_data q)"
    using fits by (simp add: q' assign_segment_length)
  have seg': "segment_ok (q_data q') (q_rows q' * q_cols q' * i) (q_rows q' * q_cols q')"
    using seg len by (simp add: segment_ok_def q')
  have readback: "segment (q_data q') (?n * i) ?n = m_data v"
    using fits n by (simp add: q' segment_assign_segment)
  have "\<lparr>m_rows = nat (q_rows q), m_cols = nat (q_cols q), m_data = m_data v\<rparr> = v"
    by (simp flip: rows cols)
  then show ?thesis
    using seg' readback rows cols by (simp add: QValues_Get_def q')
qed

lemma out_apply_Inr_iff:
  "out_apply out what f = Inr out' \<longleftrightarrow>
     Q_index what < length out
     \<and> (\<exists>q. f (out ! Q_index what) = Inr q \<and> out' = out[Q_index what := q])"
  by (auto simp: out_apply_def and_then_Inr_iff)

section \<open>The equivalent strain is positive\<close>

lemma InvariantJ2_nonneg: "0 \<le> fst (InvariantJ2 v)"
  by (simp add: InvariantJ2_def)

lemma mises_norm_nonneg:
  fixes x y :: real
  assumes "0 \<le> y"
  shows "0 \<le> x + sqrt (x * x + y)"
proof -
  have "\<bar>x\<bar> = sqrt (x * x)" by simp
  also have "\<dots> \<le> sqrt (x * x + y)" using assms by (intro real_sqrt_le_mono) simp
  finally show ?thesis by linarith
qed

lemma ModMisesEeq_evaluate_returns:
  assumes "m_rows (mm_T3D m) = 6" and "m_cols (mm_T3D m) = length strain"
  shows "\<exists>eeq deeq. ModMisesEeq_evaluate m strain = Inr (eeq, deeq) \<and> length deeq = length strain"
  using assms
  by (simp add: ModMisesEeq_evaluate_def mat_vec_def as_V_FULL_def and_then_simps Let_def
      InvariantI1_def InvariantJ2_def vec_add_def scal_vec_def mat_transpose_def mat_of_def)

lemma ModMisesEeq_evaluate_length:
  "ModMisesEeq_evaluate m strain = Inr (eeq, deeq) \<Longrightarrow> length deeq = length strain"
  by (auto simp: ModMisesEeq_evaluate_def and_then_Inr_iff Let_def case_prod_beta
      mat_vec_Inr_iff mat_transpose_def mat_of_def as_V_FULL_def split: if_splits)

lemma ModMisesEeq_evaluate_positive:
  assumes ev: "ModMisesEeq_evaluate m strain = Inr (eeq, deeq)" and K2: "0 \<le> mm_K2 m"
  shows "1 / 10 ^ 14 \<le> eeq"
proof -
  from ev obtain v where
    eeq: "eeq = mm_K1 m * fst (InvariantI1 v)
          + (sqrt (mm_K1 m * mm_K1 m * fst (InvariantI1 v) * fst (InvariantI1 v)
                   + mm_K2 m * fst (InvariantJ2 v)) + 1 / 10 ^ 14)"
    by (auto simp: ModMisesEeq_evaluate_def and_then_Inr_iff Let_def case_prod_beta)
  define x where "x = mm_K1 m * fst (InvariantI1 v)"
  define y where "y = mm_K2 m * fst (InvariantJ2 v)"
  have y: "0 \<le> y" unfolding y_def using K2 InvariantJ2_nonneg by simp
  have "mm_K1 m * mm_K1 m * fst (InvariantI1 v) * fst (InvariantI1 v) = x * x"
    by (simp add: x_def)
  with eeq have "eeq = x + sqrt (x * x + y) + 1 / 10 ^ 14" by (simp add: x_def y_def)
  with mises_norm_nonneg [OF y, of x] show ?thesis by linarith
qed

lemma ModMisesEeq_init_K2: "0 < k \<Longrightarrow> 0 \<le> mm_K2 (ModMisesEeq_init k nu c)"
proof -
  assume "0 < k"
  moreover have "0 \<le> (1 + nu) * (1 + nu)" by simp
  ultimately have "0 \<le> k * ((1 + nu) * (1 + nu))" by (simp only: mult_nonneg_nonneg less_imp_le)
  then show ?thesis by (simp add: ModMisesEeq_init_def mult.assoc)
qed

section \<open>The softening curve\<close>

lemma omega_eq:
  "dl_k0 law < k \<Longrightarrow>
     fst (DamageLawExponential_evaluate law k) = 1 - dl_k0 law / k * softening law k"
  by (simp add: DamageLawExponential_evaluate_def Let_def softening_def)

lemma softening_bounds:
  assumes a: "0 \<le> dl_a law" "dl_a law \<le> 1" and b: "0 \<le> dl_b law" and k: "dl_k0 law < k"
  shows "0 < softening law k" and "softening law k \<le> 1"
proof -
  let ?e = "exp (dl_b law * (dl_k0 law - k))"
  have e0: "0 < ?e" by simp
  have "dl_b law * (dl_k0 law - k) \<le> 0" using b k by (simp add: mult_nonneg_nonpos)
  then have e1: "?e \<le> 1" by simp
  show "0 < softening law k"
  proof (cases "dl_a law = 1")
    case True
    then show ?thesis using e0 by (simp add: softening_def)
  next
    case False
    with a have "0 < 1 - dl_a law" by simp
    moreover have "0 \<le> dl_a law * ?e" using a e0 by simp
    ultimately show ?thesis by (simp add: softening_def)
  qed
  have "dl_a law * ?e \<le> dl_a law * 1" using a e1 by (intro mult_left_mono) simp_all
  then show "softening law k \<le> 1" by (simp add: softening_def)
qed

lemma softening_antimono:
  assumes a: "0 \<le> dl_a law" and b: "0 \<le> dl_b law" and k: "k1 \<le> k2"
  shows "softening law k2 \<le> softening law k1"
proof -
  have "dl_b law * (dl_k0 law - k2) \<le> dl_b law * (dl_k0 law - k1)"
    using b k by (intro mult_left_mono) simp_all
  then have "exp (dl_b law * (dl_k0 law - k2)) \<le> exp (dl_b law * (dl_k0 law - k1))" by simp
  then have "dl_a law * exp (dl_b law * (dl_k0 law - k2))
           \<le> dl_a law * exp (dl_b law * (dl_k0 law - k1))"
    using a by (intro mult_left_mono) simp_all
  then show ?thesis by (simp add: softening_def)
qed

lemma omega_bounds:
  assumes k0: "0 < dl_k0 law" and a: "0 \<le> dl_a law" "dl_a law \<le> 1" and b: "0 \<le> dl_b law"
    and k: "dl_k0 law < k"
  shows "0 < fst (DamageLawExponential_evaluate law k)"
    and "fst (DamageLawExponential_evaluate law k) < 1"
proof -
  have kpos: "0 < k" using k0 k by simp
  have q: "0 < dl_k0 law / k" "dl_k0 law / k < 1" using k0 k kpos by simp_all
  note s = softening_bounds [OF a b k]
  have "dl_k0 law / k * softening law k \<le> dl_k0 law / k * 1"
    using q s by (intro mult_left_mono) simp_all
  with q have "dl_k0 law / k * softening law k < 1" by simp
  then show "0 < fst (DamageLawExponential_evaluate law k)" by (simp add: omega_eq [OF k])
  have "0 < dl_k0 law / k * softening law k" using q(1) s(1) by (rule mult_pos_pos)
  then show "fst (DamageLawExponential_evaluate law k) < 1" by (simp add: omega_eq [OF k])
qed

lemma omega_strict_mono:
  assumes k0: "0 < dl_k0 law" and a: "0 \<le> dl_a law" "dl_a law \<le> 1" and b: "0 \<le> dl_b law"
    and k1: "dl_k0 law < k1" and k12: "k1 < k2"
  shows "fst (DamageLawExponential_evaluate law k1) < fst (DamageLawExponential_evaluate law k2)"
proof -
  have k2: "dl_k0 law < k2" using k1 k12 by simp
  have pos: "0 < k1" "0 < k2" using k0 k1 k2 by simp_all
  have q: "dl_k0 law / k2 < dl_k0 law / k1" using k0 pos k12 by (simp add: frac_less2)
  have q2: "0 < dl_k0 law / k2" using k0 pos by simp
  have s1: "0 < softening law k1" by (rule softening_bounds [OF a b k1])
  have s12: "softening law k2 \<le> softening law k1"
    using a(1) b k12 by (intro softening_antimono) simp_all
  have "dl_k0 law / k2 * softening law k2 \<le> dl_k0 law / k2 * softening law k1"
    using s12 q2 by (intro mult_left_mono) simp_all
  also have "\<dots> < dl_k0 law / k1 * softening law k1"
    using q s1 by (intro mult_strict_right_mono) simp_all
  finally show ?thesis by (simp add: omega_eq [OF k1] omega_eq [OF k2])
qed

lemma exp_minus_two: "exp (- 2 :: real) \<le> 1 / 3"
proof -
  have "1 + (2::real) \<le> exp 2" by (rule exp_ge_add_one_self)
  then show ?thesis by (simp add: exp_minus divide_simps)
qed

section \<open>The history under update\<close>

lemma evaluate_kappa_ge:
  "stored \<le> fst (LocalDamage_evaluate_kappa eeq stored)"
  "stored \<le> fst (GradientDamage_evaluate_kappa eeq stored)"
  by (simp_all add: LocalDamage_evaluate_kappa_def GradientDamage_evaluate_kappa_def)

lemma evaluate_kappa_idem:
  "fst (LocalDamage_evaluate_kappa eeq (fst (LocalDamage_evaluate_kappa eeq stored)))
     = fst (LocalDamage_evaluate_kappa eeq stored)"
  "fst (GradientDamage_evaluate_kappa eeq (fst (GradientDamage_evaluate_kappa eeq stored)))
     = fst (GradientDamage_evaluate_kappa eeq stored)"
  by (simp_all add: LocalDamage_evaluate_kappa_def GradientDamage_evaluate_kappa_def)

lemma LocalDamage_update_Inr_iff:
  "LocalDamage_update law strain i = Inr law' \<longleftrightarrow>
     (\<exists>eeq deeq. ModMisesEeq_evaluate (ld_eeq law) strain = Inr (eeq, deeq)
        \<and> 0 \<le> i \<and> i < int (length (ld_kappa law))
        \<and> law' = law\<lparr>ld_kappa := (ld_kappa law)
             [nat i := fst (LocalDamage_evaluate_kappa eeq (ld_kappa law ! nat i))]\<rparr>)"
  unfolding LocalDamage_update_def
  by (auto simp: and_then_Inr_iff vec_at_Inr_iff Let_def)

lemma GradientDamage_update_Inr_iff:
  "GradientDamage_update g strain neeq i = Inr g' \<longleftrightarrow>
     (q_rows (gd_kappa g) = 1 \<and> q_cols (gd_kappa g) = 1
        \<and> 0 \<le> i \<and> i < int (length (q_data (gd_kappa g)))
        \<and> g' = g\<lparr>gd_kappa := (gd_kappa g)\<lparr>q_data := (q_data (gd_kappa g))
             [nat i := fst (GradientDamage_evaluate_kappa neeq (q_data (gd_kappa g) ! nat i))]\<rparr>\<rparr>)"
  unfolding GradientDamage_update_def
  by (auto simp: and_then_Inr_iff QValues_GetScalar_Inr_iff QValues_Set_scalar_Inr_iff)

lemma kappa_le_refl: "kappa_le xs xs"
  by (simp add: kappa_le_def)

lemma kappa_le_trans: "kappa_le xs ys \<Longrightarrow> kappa_le ys zs \<Longrightarrow> kappa_le xs zs"
  unfolding kappa_le_def by (metis order_trans)

lemma kappa_le_update: "xs ! n \<le> v \<Longrightarrow> kappa_le xs (xs[n := v])"
  by (cases "n < length xs") (auto simp: kappa_le_def nth_list_update)

lemma LocalDamage_update_mono:
  "LocalDamage_update law strain i = Inr law' \<Longrightarrow> kappa_le (ld_kappa law) (ld_kappa law')"
  by (auto simp: LocalDamage_update_Inr_iff intro!: kappa_le_update evaluate_kappa_ge)

lemma GradientDamage_update_mono:
  "GradientDamage_update g strain neeq i = Inr g'
     \<Longrightarrow> kappa_le (q_data (gd_kappa g)) (q_data (gd_kappa g'))"
  by (auto simp: GradientDamage_update_Inr_iff intro!: kappa_le_update evaluate_kappa_ge)

lemma LocalDamage_updates_mono:
  "LocalDamage_updates law xs = Inr law' \<Longrightarrow> kappa_le (ld_kappa law) (ld_kappa law')"
proof (induction xs arbitrary: law)
  case Nil
  then show ?case by (simp add: kappa_le_refl)
next
  case (Cons x xs)
  obtain strain i where x: "x = (strain, i)" by (cases x)
  from Cons.prems x obtain mid where
    step: "LocalDamage_update law strain i = Inr mid" and
    rest: "LocalDamage_updates mid xs = Inr law'"
    by (auto simp: and_then_Inr_iff)
  from LocalDamage_update_mono [OF step] Cons.IH [OF rest]
  show ?case by (rule kappa_le_trans)
qed

lemma GradientDamage_updates_mono:
  "GradientDamage_updates g ys = Inr g'
     \<Longrightarrow> kappa_le (q_data (gd_kappa g)) (q_data (gd_kappa g'))"
proof (induction ys arbitrary: g)
  case Nil
  then show ?case by (simp add: kappa_le_refl)
next
  case (Cons y ys)
  obtain strain neeq i where y: "y = (strain, neeq, i)" by (cases y)
  from Cons.prems y obtain mid where
    step: "GradientDamage_update g strain neeq i = Inr mid" and
    rest: "GradientDamage_updates mid ys = Inr g'"
    by (auto simp: and_then_Inr_iff)
  from GradientDamage_update_mono [OF step] Cons.IH [OF rest]
  show ?case by (rule kappa_le_trans)
qed

lemma LocalDamage_update_twice:
  "LocalDamage_update law strain i = Inr law' \<Longrightarrow> LocalDamage_update law' strain i = Inr law'"
  by (auto simp: LocalDamage_update_Inr_iff evaluate_kappa_idem)

lemma GradientDamage_update_twice:
  "GradientDamage_update g strain neeq i = Inr g'
     \<Longrightarrow> GradientDamage_update g' strain neeq i = Inr g'"
  by (auto simp: GradientDamage_update_Inr_iff evaluate_kappa_idem)

section \<open>What evaluate returns\<close>

lemma LocalDamage_evaluate_frame:
  "LocalDamage_evaluate law strain i = Inr (res, law') \<Longrightarrow> law' = law"
  unfolding LocalDamage_evaluate_def
  by (auto simp: and_then_Inr_iff Let_def case_prod_beta)

lemma GradientDamage_evaluate_frame:
  "GradientDamage_evaluate g strain e out i = Inr (out', g') \<Longrightarrow> g' = g"
  unfolding GradientDamage_evaluate_def
  by (auto simp: and_then_Inr_iff Let_def case_prod_beta)

lemma LocalDamage_evaluate_elastic:
  assumes ev: "ModMisesEeq_evaluate (ld_eeq law) strain = Inr (eeq, deeq)"
    and K2: "0 \<le> mm_K2 (ld_eeq law)"
    and below: "eeq < dl_k0 (ld_omega law)"
    and i: "0 \<le> i" "i < int (length (ld_kappa law))" and fresh: "ld_kappa law ! nat i = 0"
    and C: "storage_ok (ld_C law)" "m_cols (ld_C law) = length strain"
  shows "\<exists>stress. mat_vec (ld_C law) strain = Inr stress
           \<and> LocalDamage_evaluate law strain i = Inr ((stress, ld_C law), law)"
proof -
  have pos: "0 \<le> eeq" using ModMisesEeq_evaluate_positive [OF ev K2] by simp
  have kap: "LocalDamage_evaluate_kappa eeq 0 = (eeq, 1)"
    using pos by (simp add: LocalDamage_evaluate_kappa_def)
  have om: "DamageLawExponential_evaluate (ld_omega law) eeq = (0, 0)"
    using below by (simp add: DamageLawExponential_evaluate_def)
  have at: "vec_at (ld_kappa law) i = Inr 0"
    using i fresh by (simp add: vec_at_def)
  have one: "scal_mat 1 (ld_C law) = ld_C law"
    by (simp add: scal_mat_def)
  obtain stress where st: "mat_vec (ld_C law) strain = Inr stress"
    using C(2) by (simp add: mat_vec_def)
  have len_stress: "length stress = m_rows (ld_C law)" by (rule mat_vec_length [OF st])
  have len_deeq: "length deeq = length strain" by (rule ModMisesEeq_evaluate_length [OF ev])
  let ?u = "vec_scal (vec_scal stress 0) 1"
  have u0: "\<forall>r < length ?u. ?u ! r = 0" by (simp add: vec_scal_def)
  have "m_data (outer ?u deeq) = replicate (length deeq * length ?u) 0"
    by (rule outer_zero [OF u0])
  then have corr: "m_data (outer ?u deeq) = replicate (m_rows (ld_C law) * m_cols (ld_C law)) 0"
    using len_stress len_deeq C(2) by (simp add: vec_scal_length mult.commute)
  have sub: "mat_sub (ld_C law) (outer ?u deeq) = Inr (ld_C law)"
    using C len_stress len_deeq
    by (simp add: mat_sub_def outer_dims corr map2_minus_zero storage_ok_def vec_scal_length)
  show ?thesis
    using st by (simp add: LocalDamage_evaluate_def ev at kap om one sub and_then_simps)
qed

lemma GradientDamage_evaluate_tangent:
  assumes ev: "GradientDamage_evaluate g strain e out i = Inr (out', g')"
    and ok: "storage_ok (gd_C g)"
  shows "QValues_Get i (out' ! Q_index DSIGMA_DEPS) =
           Inr (scal_mat (1 - fst (DamageLawExponential_evaluate (gd_omega g)
                  (fst (GradientDamage_evaluate_kappa e (q_data (gd_kappa g) ! nat i))))) (gd_C g))"
proof -
  let ?omega = "fst (DamageLawExponential_evaluate (gd_omega g)
                  (fst (GradientDamage_evaluate_kappa e (q_data (gd_kappa g) ! nat i))))"
  let ?M = "scal_mat (1 - ?omega) (gd_C g)"
  from ev obtain out7 where
    last: "out_apply out7 DSIGMA_DEPS (QValues_Set ?M i) = Inr out'"
    by (auto simp: GradientDamage_evaluate_def and_then_Inr_iff Let_def case_prod_beta
        QValues_GetScalar_Inr_iff)
  then obtain q' where lt: "Q_index DSIGMA_DEPS < length out7"
    and wrote: "QValues_Set ?M i (out7 ! Q_index DSIGMA_DEPS) = Inr q'"
    and out': "out' = out7[Q_index DSIGMA_DEPS := q']"
    by (auto simp: out_apply_Inr_iff)
  have "storage_ok ?M" using ok by (simp add: storage_ok_def scal_mat_def)
  from QValues_Get_Set [OF wrote this] lt show ?thesis by (simp add: out')
qed

section \<open>The batch driver, point by point\<close>

lemma IpLoop_evaluate_from_frame:
  "IpLoop_evaluate_from all_strains all_neeq q i loop = Inr loop'
     \<Longrightarrow> ip_law loop' = ip_law loop \<and> ip_n loop' = ip_n loop"
proof (induction all_strains all_neeq q i loop rule: IpLoop_evaluate_from.induct)
  case (1 all_strains all_neeq q i loop)
  show ?case
  proof (cases "i < ip_n loop")
    case False
    with "1.prems" show ?thesis by (simp add: IpLoop_evaluate_from.simps [of _ _ _ i loop])
  next
    case True
    with "1.prems" obtain strain neeq out law where
      ev: "GradientDamage_evaluate (ip_law loop) strain neeq (ip_outputs loop) i = Inr (out, law)" and
      rest: "IpLoop_evaluate_from all_strains all_neeq q (i + 1)
               \<lparr>ip_law = law, ip_outputs = out, ip_n = ip_n loop\<rparr> = Inr loop'"
      by (auto simp: IpLoop_evaluate_from.simps [of _ _ _ i loop] and_then_Inr_iff)
    from "1.IH" [OF True rest] have
      "ip_law loop' = law \<and> ip_n loop' = ip_n loop" by simp
    moreover have "law = ip_law loop" using ev by (rule GradientDamage_evaluate_frame)
    ultimately show ?thesis by simp
  qed
qed

lemma IpLoop_update_from_mono:
  "IpLoop_update_from all_strains all_neeq q i loop = Inr loop'
     \<Longrightarrow> kappa_le (q_data (gd_kappa (ip_law loop))) (q_data (gd_kappa (ip_law loop')))"
proof (induction all_strains all_neeq q i loop rule: IpLoop_update_from.induct)
  case (1 all_strains all_neeq q i loop)
  show ?case
  proof (cases "i < ip_n loop")
    case False
    with "1.prems" show ?thesis
      by (simp add: IpLoop_update_from.simps [of _ _ _ i loop] kappa_le_refl)
  next
    case True
    with "1.prems" obtain strain neeq law where
      up: "GradientDamage_update (ip_law loop) strain neeq i = Inr law" and
      rest: "IpLoop_update_from all_strains all_neeq q (i + 1) (loop\<lparr>ip_law := law\<rparr>) = Inr loop'"
      by (auto simp: IpLoop_update_from.simps [of _ _ _ i loop] and_then_Inr_iff)
    from "1.IH" [OF True rest] have
      "kappa_le (q_data (gd_kappa law)) (q_data (gd_kappa (ip_law loop')))" by simp
    with GradientDamage_update_mono [OF up] show ?thesis by (rule kappa_le_trans)
  qed
qed

section \<open>The example laws, evaluated\<close>

lemma T3D_UNIAXIAL_STRAIN:
  "T3D nu UNIAXIAL_STRAIN = \<lparr>m_rows = 6, m_cols = 1, m_data = [1, 0, 0, 0, 0, 0]\<rparr>"
  by (simp add: T3D_def eigen_defs eval_nat_numeral)

lemma T3D_PLANE_STRAIN:
  "T3D nu PLANE_STRAIN = \<lparr>m_rows = 6, m_cols = 3,
     m_data = [1, 0, 0, 0, 0, 0,  0, 1, 0, 0, 0, 0,  0, 0, 0, 0, 0, 1]\<rparr>"
  by (simp add: T3D_def eigen_defs eval_nat_numeral)

lemma C_example_PLANE_STRAIN:
  "C_example E nu PLANE_STRAIN = \<lparr>m_rows = 3, m_cols = 3, m_data = [E, 0, 0, 0, E, 0, 0, 0, E]\<rparr>"
  by (simp add: C_example_def mat_of_def upt_rec)

lemma C_example_UNIAXIAL_STRAIN:
  "C_example E nu UNIAXIAL_STRAIN = \<lparr>m_rows = 1, m_cols = 1, m_data = [E]\<rparr>"
  by (simp add: C_example_def mat_of_def)

lemma ModMisesEeq_uniaxial_one:
  "ModMisesEeq_evaluate (ModMisesEeq_init 1 0 UNIAXIAL_STRAIN) [1]
     = Inr (1 + 1 / 10 ^ 14, [1 / (1 + 1 / 10 ^ 14)])"
  by (simp add: ModMisesEeq_evaluate_def ModMisesEeq_init_def T3D_UNIAXIAL_STRAIN eigen_defs
      and_then_simps InvariantI1_def InvariantJ2_def Let_def upt_rec)

lemma ModMisesEeq_uniaxial_zero:
  "ModMisesEeq_evaluate (ModMisesEeq_init 1 0 UNIAXIAL_STRAIN) [0] = Inr (1 / 10 ^ 14, [0])"
  by (simp add: ModMisesEeq_evaluate_def ModMisesEeq_init_def T3D_UNIAXIAL_STRAIN eigen_defs
      and_then_simps InvariantI1_def InvariantJ2_def Let_def upt_rec)

lemma ModMisesEeq_plane_one:
  "ModMisesEeq_evaluate (ModMisesEeq_init 1 0 PLANE_STRAIN) [1, 0, 0]
     = Inr (1 + 1 / 10 ^ 14, [1 / (1 + 1 / 10 ^ 14), - (1 / (2 * (1 + 1 / 10 ^ 14))), 0])"
  by (simp add: ModMisesEeq_evaluate_def ModMisesEeq_init_def T3D_PLANE_STRAIN eigen_defs
      and_then_simps InvariantI1_def InvariantJ2_def Let_def upt_rec)

lemma local_example_evaluate:
  "LocalDamage_evaluate local_example [1] 0
     = Inr (([1], \<lparr>m_rows = 1, m_cols = 1, m_data = [1]\<rparr>), local_example)"
  by (simp add: LocalDamage_evaluate_def local_example_def LocalDamage_init_def
      ModMisesEeq_uniaxial_one C_example_UNIAXIAL_STRAIN and_then_simps vec_at_def
      LocalDamage_evaluate_kappa_def DamageLawExponential_evaluate_def eigen_defs)

lemma local_example_update_one:
  "LocalDamage_update local_example [1] 0
     = Inr (local_example\<lparr>ld_kappa := [1 + 1 / 10 ^ 14]\<rparr>)"
  by (simp add: LocalDamage_update_def local_example_def LocalDamage_init_def
      ModMisesEeq_uniaxial_one and_then_simps vec_at_def LocalDamage_evaluate_kappa_def)

lemma local_example_update_zero:
  "LocalDamage_update (local_example\<lparr>ld_kappa := [1 + 1 / 10 ^ 14]\<rparr>) [0] 0
     = Inr (local_example\<lparr>ld_kappa := [1 + 1 / 10 ^ 14]\<rparr>)"
  by (simp add: LocalDamage_update_def local_example_def LocalDamage_init_def
      ModMisesEeq_uniaxial_zero and_then_simps vec_at_def LocalDamage_evaluate_kappa_def)

lemma gradient_example_update_two:
  "GradientDamage_update gradient_example s 2 0
     = Inr (gradient_example\<lparr>gd_kappa := \<lparr>q_rows = 1, q_cols = 1, q_data = [2]\<rparr>\<rparr>)"
  by (simp add: GradientDamage_update_def gradient_example_def GradientDamage_init_def
      and_then_simps QValues_GetScalar_def QValues_Set_scalar_def vec_at_def
      GradientDamage_evaluate_kappa_def)

lemma gradient_example_update_one:
  "GradientDamage_update
       (gradient_example\<lparr>gd_kappa := \<lparr>q_rows = 1, q_cols = 1, q_data = [2]\<rparr>\<rparr>) s 1 0
     = Inr (gradient_example\<lparr>gd_kappa := \<lparr>q_rows = 1, q_cols = 1, q_data = [2]\<rparr>\<rparr>)"
  by (simp add: GradientDamage_update_def gradient_example_def GradientDamage_init_def
      and_then_simps QValues_GetScalar_def QValues_Set_scalar_def vec_at_def
      GradientDamage_evaluate_kappa_def)

lemma gradient_example_evaluate:
  "GradientDamage_evaluate gradient_example [1, 0, 0] 2 out_example 0
     = Inr ([QValues_init 0 0,
        \<lparr>q_rows = 3, q_cols = 1, q_data = [1 / 2, 0, 0]\<rparr>,
        \<lparr>q_rows = 3, q_cols = 3, q_data = [1 / 2, 0, 0, 0, 1 / 2, 0, 0, 0, 1 / 2]\<rparr>,
        \<lparr>q_rows = 1, q_cols = 1, q_data = [1 + 1 / 10 ^ 14]\<rparr>,
        \<lparr>q_rows = 3, q_cols = 1,
          q_data = [1 / (1 + 1 / 10 ^ 14), - (1 / (2 * (1 + 1 / 10 ^ 14))), 0]\<rparr>,
        \<lparr>q_rows = 3, q_cols = 1, q_data = [- (1 / 4), 0, 0]\<rparr>], gradient_example)"
  by (simp add: GradientDamage_evaluate_def gradient_example_def GradientDamage_init_def
      ModMisesEeq_plane_one C_example_PLANE_STRAIN out_example_def and_then_simps
      QValues_GetScalar_def vec_at_def GradientDamage_evaluate_kappa_def
      DamageLawExponential_evaluate_def out_apply_def QValues_Set_def QValues_Set_scalar_def
      segment_ok_def assign_segment_def eigen_defs upt_rec Let_def)

lemma gradient_example_omega:
  "fst (DamageLawExponential_evaluate (gd_omega gradient_example)
     (fst (GradientDamage_evaluate_kappa 2 (q_data (gd_kappa gradient_example) ! nat 0)))) = 1 / 2"
  by (simp add: gradient_example_def GradientDamage_init_def GradientDamage_evaluate_kappa_def
      DamageLawExponential_evaluate_def)

text \<open>The example law and outputs are what the constructors and \<open>resize 1\<close> of the batch
  driver produce.\<close>

lemma IpLoop_example_reached:
  "and_then (IpLoop_init (GradientDamage_init C_example 1 0 PLANE_STRAIN 1 (1 / 2) 0 1))
     (IpLoop_resize 1) = Inr loop_example"
  by (simp add: IpLoop_init_def IpLoop_resize_def GradientDamage_AllocateOutputs_def
      GradientDamage_init_def C_example_PLANE_STRAIN out_put_def QValues_default_def
      QValues_init_def and_then_simps eval_nat_numeral QValues_Resize_def VectorXd_setZero_def
      GradientDamage_resize_def gradient_example_def out_example_def loop_example_def Let_def)

lemma gradient_example_qdim: "GradientDamage_qdim gradient_example = 3"
  by (simp add: GradientDamage_qdim_def gradient_example_def GradientDamage_init_def
      C_example_PLANE_STRAIN)

lemma loop_example_evaluate:
  "\<exists>out'. IpLoop_evaluate [1, 0, 0] [2] loop_example
     = Inr \<lparr>ip_law = gradient_example, ip_outputs = out', ip_n = 1\<rparr>"
  by (simp add: IpLoop_evaluate_def loop_example_def gradient_example_qdim segment_at_def
      segment_ok_def segment_def vec_at_def and_then_simps gradient_example_evaluate)

lemma loop_example_update:
  "IpLoop_update [1, 0, 0] [2] loop_example
     = Inr (loop_example\<lparr>ip_law :=
         gradient_example\<lparr>gd_kappa := \<lparr>q_rows = 1, q_cols = 1, q_data = [2]\<rparr>\<rparr>\<rparr>)"
  by (simp add: IpLoop_update_def loop_example_def gradient_example_qdim segment_at_def
      segment_ok_def segment_def vec_at_def and_then_simps gradient_example_update_two)

section \<open>Rounding to the nearest double\<close>

text \<open>The rounding is odd, monotone and idempotent, it leaves a significand of at most
  53 bits alone, and a value between two neighbouring doubles rounds to the nearer.\<close>

lemma round_even_of_int [simp]: "round_even (of_int n) = n"
  by (simp add: round_even_def)

lemma round_even_near: "\<bar>of_int (round_even y) - y\<bar> \<le> 1 / 2"
  unfolding round_even_def by (auto simp: abs_le_iff) (linarith+)?


lemma round_even_ge: "of_int a \<le> y \<Longrightarrow> a \<le> round_even y"
  unfolding round_even_def by (auto simp: le_floor_iff) (linarith+)?

lemma round_even_le: "y \<le> of_int b \<Longrightarrow> round_even y \<le> b"
proof -
  assume y: "y \<le> of_int b"
  show ?thesis
  proof (cases "y = of_int b")
    case True
    then show ?thesis by simp
  next
    case False
    with y have "y < of_int b" by simp
    then have "\<lfloor>y\<rfloor> < b" by (simp add: floor_less_iff)
    then have "\<lfloor>y\<rfloor> + 1 \<le> b" by simp
    moreover have "round_even y \<le> \<lfloor>y\<rfloor> + 1" by (simp add: round_even_def)
    ultimately show ?thesis by simp
  qed
qed

lemma round_even_mono: "y \<le> z \<Longrightarrow> round_even y \<le> round_even z"
proof -
  assume yz: "y \<le> z"
  show ?thesis
  proof (cases "\<lfloor>y\<rfloor> = \<lfloor>z\<rfloor>")
    case True
    with yz show ?thesis by (auto simp: round_even_def)
  next
    case False
    with yz have "\<lfloor>y\<rfloor> < \<lfloor>z\<rfloor>" by (simp add: floor_mono order.not_eq_order_implies_strict)
    then have "\<lfloor>y\<rfloor> + 1 \<le> \<lfloor>z\<rfloor>" by simp
    moreover have "round_even y \<le> \<lfloor>y\<rfloor> + 1" by (simp add: round_even_def)
    moreover have "\<lfloor>z\<rfloor> \<le> round_even z" by (simp add: round_even_def)
    ultimately show ?thesis by linarith
  qed
qed

lemma round_even_tie_even: "even n \<Longrightarrow> round_even (of_int n + 1 / 2) = n"
proof -
  assume "even n"
  have "\<lfloor>of_int n + (1 / 2 :: real)\<rfloor> = n" by linarith
  with \<open>even n\<close> show ?thesis by (simp add: round_even_def)
qed

lemma round_even_tie_odd: "odd n \<Longrightarrow> round_even (of_int n + 1 / 2) = n + 1"
proof -
  assume "odd n"
  have "\<lfloor>of_int n + (1 / 2 :: real)\<rfloor> = n" by linarith
  with \<open>odd n\<close> show ?thesis by (simp add: round_even_def)
qed

lemma binary64_alt:
  "binary64 x = (if x = 0 then 0
     else sgn x * (2 powi (binade x - 52) * of_int (round_even (\<bar>x\<bar> / 2 powi (binade x - 52)))))"
  by (simp add: binary64_def binade_def Let_def)

lemma binade_iff:
  assumes "0 < x"
  shows "binade x = e \<longleftrightarrow> 2 powi e \<le> x \<and> x < 2 powi (e + 1)"
proof -
  have "(2::real) powr real_of_int e = 2 powi e" by (simp add: powr_real_of_int')
  moreover have "(2::real) powr (real_of_int e + 1) = 2 powi (e + 1)"
    using powr_real_of_int' [of "2::real" "e + 1"] by simp
  ultimately show ?thesis
    using assms floor_log_eq_powr_iff [of x 2 e] by (simp add: binade_def)
qed

lemma binade_bounds:
  assumes "0 < x"
  shows "2 powi binade x \<le> x" and "x < 2 powi (binade x + 1)"
  using binade_iff [OF assms, of "binade x"] by simp_all

lemma binade_mono: "0 < x \<Longrightarrow> x \<le> y \<Longrightarrow> binade x \<le> binade y"
  by (simp add: binade_def floor_mono)

lemma binade_minus [simp]: "binade (- x) = binade x"
  by (simp add: binade_def)

lemma binary64_zero [simp]: "binary64 0 = 0"
  by (simp add: binary64_def)

lemma binary64_minus: "binary64 (- x) = - binary64 x"
  by (simp add: binary64_alt sgn_minus)

lemma binary64_pos:
  "0 < x \<Longrightarrow> binary64 x = 2 powi (binade x - 52) * of_int (round_even (x / 2 powi (binade x - 52)))"
  by (simp add: binary64_alt)

lemma binary64_eval:
  assumes "0 < x" and "2 powi e \<le> x" and "x < 2 powi (e + 1)"
  shows "binary64 x = 2 powi (e - 52) * of_int (round_even (x / 2 powi (e - 52)))"
proof -
  have "binade x = e" using assms by (simp add: binade_iff)
  then show ?thesis using assms(1) by (simp add: binary64_pos)
qed

lemma scaled_range:
  assumes "0 < x"
  shows "2 ^ 52 \<le> x / 2 powi (binade x - 52)" and "x / 2 powi (binade x - 52) < 2 ^ 53"
proof -
  have u: "(0::real) < 2 powi (binade x - 52)" by simp
  have a: "(2::real) powi binade x = 2 ^ 52 * 2 powi (binade x - 52)"
    using power_int_add [of "2::real" 52 "binade x - 52"] by simp
  have b: "(2::real) powi (binade x + 1) = 2 ^ 53 * 2 powi (binade x - 52)"
    using power_int_add [of "2::real" 53 "binade x - 52"] by (simp add: add.commute)
  show "2 ^ 52 \<le> x / 2 powi (binade x - 52)"
    using binade_bounds(1) [OF assms] u by (simp add: a pos_le_divide_eq)
  show "x / 2 powi (binade x - 52) < 2 ^ 53"
    using binade_bounds(2) [OF assms] u by (simp add: b pos_divide_less_eq)
qed

lemma mantissa_range:
  assumes "0 < x"
  shows "2 ^ 52 \<le> round_even (x / 2 powi (binade x - 52))"
    and "round_even (x / 2 powi (binade x - 52)) \<le> 2 ^ 53"
proof -
  have "of_int (2 ^ 52) \<le> x / 2 powi (binade x - 52)"
    using scaled_range(1) [OF assms] by simp
  then show "2 ^ 52 \<le> round_even (x / 2 powi (binade x - 52))" by (rule round_even_ge)
  have "x / 2 powi (binade x - 52) \<le> of_int (2 ^ 53)"
    using scaled_range(2) [OF assms] by simp
  then show "round_even (x / 2 powi (binade x - 52)) \<le> 2 ^ 53" by (rule round_even_le)
qed

lemma binary64_binade_bounds:
  assumes "0 < x"
  shows "2 powi binade x \<le> binary64 x" and "binary64 x \<le> 2 powi (binade x + 1)"
proof -
  let ?u = "(2::real) powi (binade x - 52)"
  let ?n = "round_even (x / ?u)"
  have u: "0 < ?u" by simp
  have a: "(2::real) powi binade x = ?u * 2 ^ 52"
    using power_int_add [of "2::real" "binade x - 52" 52] by simp
  have b: "(2::real) powi (binade x + 1) = ?u * 2 ^ 53"
    using power_int_add [of "2::real" "binade x - 52" 53] by (simp add: add.commute)
  have "(2::real) ^ 52 \<le> of_int ?n"
    using mantissa_range(1) [OF assms] by (metis of_int_le_iff of_int_numeral of_int_power)
  then show "2 powi binade x \<le> binary64 x"
    using u by (simp add: a binary64_pos [OF assms])
  have "of_int ?n \<le> (2::real) ^ 53"
    using mantissa_range(2) [OF assms] by (metis of_int_le_iff of_int_numeral of_int_power)
  then show "binary64 x \<le> 2 powi (binade x + 1)"
    using u by (simp add: b binary64_pos [OF assms])
qed

lemma binary64_pos_pos: "0 < x \<Longrightarrow> 0 < binary64 x"
  using binary64_binade_bounds(1) [of x] zero_less_power_int [of "2::real" "binade x"]
  by linarith

lemma binary64_nonneg: "0 \<le> x \<Longrightarrow> 0 \<le> binary64 x"
  using binary64_pos_pos [of x] by (cases "x = 0") auto

lemma binary64_nonpos: "x \<le> 0 \<Longrightarrow> binary64 x \<le> 0"
  using binary64_nonneg [of "- x"] by (simp add: binary64_minus)

lemma binary64_mono_pos:
  assumes "0 < x" and "x \<le> y"
  shows "binary64 x \<le> binary64 y"
proof -
  have y: "0 < y" using assms by simp
  have le: "binade x \<le> binade y" using assms by (rule binade_mono)
  show ?thesis
  proof (cases "binade x = binade y")
    case True
    let ?u = "(2::real) powi (binade y - 52)"
    have "x / ?u \<le> y / ?u" using assms(2) by (simp add: divide_right_mono)
    then have "round_even (x / ?u) \<le> round_even (y / ?u)" by (rule round_even_mono)
    then have "?u * of_int (round_even (x / ?u)) \<le> ?u * of_int (round_even (y / ?u))"
      by (intro mult_left_mono) simp_all
    then show ?thesis by (simp add: binary64_pos [OF assms(1)] binary64_pos [OF y] True)
  next
    case False
    with le have "binade x + 1 \<le> binade y" by simp
    then have "(2::real) powi (binade x + 1) \<le> 2 powi binade y"
      by (intro power_int_increasing) simp_all
    with binary64_binade_bounds(2) [OF assms(1)] binary64_binade_bounds(1) [OF y]
    show ?thesis by linarith
  qed
qed

lemma binary64_mono: "x \<le> y \<Longrightarrow> binary64 x \<le> binary64 y"
proof -
  assume xy: "x \<le> y"
  consider "0 < x" | "x \<le> 0" "0 \<le> y" | "y < 0" by linarith
  then show ?thesis
  proof cases
    case 1
    then show ?thesis using xy by (rule binary64_mono_pos)
  next
    case 2
    then show ?thesis using binary64_nonpos [of x] binary64_nonneg [of y] by linarith
  next
    case 3
    then have "0 < - y" and "- y \<le> - x" using xy by simp_all
    then have "binary64 (- y) \<le> binary64 (- x)" by (rule binary64_mono_pos)
    then show ?thesis by (simp add: binary64_minus)
  qed
qed


lemma two_powi_less_D: "(2::real) powi m < 2 powi n \<Longrightarrow> m < n"
  using power_int_increasing [of n m "2::real"] by (cases "m < n") auto

lemma two_powi_le_D: "(2::real) powi m \<le> 2 powi n \<Longrightarrow> m \<le> n"
  using power_int_strict_increasing [of n m "2::real"] by (cases "m \<le> n") auto

lemma binary64_exactI:
  assumes "0 < x" and "x / 2 powi (binade x - 52) = of_int m"
  shows "binary64 x = x"
proof -
  have "binary64 x = 2 powi (binade x - 52) * (x / 2 powi (binade x - 52))"
    by (simp only: binary64_pos [OF assms(1)] assms(2) round_even_of_int)
  then show ?thesis by simp
qed

lemma binary64_exact:
  assumes n: "0 < n" "n \<le> 2 ^ 53"
  shows "binary64 (of_int n * 2 powi j) = of_int n * 2 powi j"
proof -
  let ?x = "of_int n * (2::real) powi j"
  let ?e = "binade ?x"
  have x: "0 < ?x" using n by simp
  have n1: "(1::real) \<le> of_int n" using n by simp
  have n53: "of_int n \<le> (2::real) ^ 53"
    using n(2) by (metis of_int_le_iff of_int_numeral of_int_power)
  have "1 * (2::real) powi j \<le> ?x" using n1 by (intro mult_right_mono) simp_all
  then have "(2::real) powi j \<le> ?x" by simp
  also have "?x < 2 powi (?e + 1)" by (rule binade_bounds(2) [OF x])
  finally have "j < ?e + 1" by (rule two_powi_less_D)
  then have je: "j \<le> ?e" by simp
  have "(2::real) powi ?e \<le> ?x" by (rule binade_bounds(1) [OF x])
  also have "?x \<le> 2 ^ 53 * 2 powi j" using n53 by (simp add: mult_right_mono)
  also have "\<dots> = 2 powi (53 + j)" using power_int_add [of "2::real" 53 j] by simp
  finally have ej: "?e \<le> 53 + j" by (rule two_powi_le_D)
  show ?thesis
  proof (cases "?e = 53 + j")
    case False
    with ej have t: "0 \<le> j - ?e + 52" by simp
    have "?x / 2 powi (?e - 52) = of_int n * 2 powi (j - ?e + 52)"
      using power_int_diff [of "2::real" j "?e - 52"] by (simp add: algebra_simps)
    also have "\<dots> = of_int n * 2 ^ nat (j - ?e + 52)"
      using t by (simp add: power_int_def)
    also have "\<dots> = of_int (n * 2 ^ nat (j - ?e + 52))" by simp
    finally show ?thesis by (rule binary64_exactI [OF x])
  next
    case True
    have "(2::real) powi ?e \<le> ?x" by (rule binade_bounds(1) [OF x])
    moreover have "(2::real) powi ?e = 2 ^ 53 * 2 powi j"
      using power_int_add [of "2::real" 53 j] True by simp
    ultimately have "(2::real) ^ 53 \<le> of_int n" by simp
    with n53 have n_eq: "of_int n = (2::real) ^ 53" by simp
    have "?x / 2 powi (?e - 52) = 2 ^ 53 * 2 powi (j - ?e + 52)"
      using power_int_diff [of "2::real" j "?e - 52"] by (simp add: algebra_simps n_eq)
    also have "j - ?e + 52 = - 1" using True by simp
    also have "(2::real) ^ 53 * 2 powi (- 1) = of_int (2 ^ 52)" by simp
    finally show ?thesis by (rule binary64_exactI [OF x])
  qed
qed

lemma binary64_idem: "binary64 (binary64 x) = binary64 x"
proof -
  have pos: "binary64 (binary64 x) = binary64 x" if "0 < x" for x
  proof -
    let ?n = "round_even (x / 2 powi (binade x - 52))"
    have "0 < ?n" using mantissa_range(1) [OF that] by simp
    moreover have "?n \<le> 2 ^ 53" by (rule mantissa_range(2) [OF that])
    ultimately have "binary64 (of_int ?n * 2 powi (binade x - 52))
        = of_int ?n * 2 powi (binade x - 52)" by (rule binary64_exact)
    then show ?thesis by (simp add: binary64_pos [OF that] mult.commute)
  qed
  consider "0 < x" | "x = 0" | "x < 0" by linarith
  then show ?thesis
  proof cases
    case 1 then show ?thesis by (rule pos)
  next
    case 2 then show ?thesis by simp
  next
    case 3
    then have "binary64 (binary64 (- x)) = binary64 (- x)" by (intro pos) simp
    then show ?thesis by (simp add: binary64_minus)
  qed
qed

lemma binary64_of_int: "\<bar>n\<bar> \<le> 2 ^ 53 \<Longrightarrow> binary64 (of_int n) = of_int n"
proof -
  assume n: "\<bar>n\<bar> \<le> 2 ^ 53"
  consider "0 < n" | "n = 0" | "n < 0" by linarith
  then show ?thesis
  proof cases
    case 1
    then show ?thesis using n binary64_exact [of n 0] by simp
  next
    case 2 then show ?thesis by simp
  next
    case 3
    then have "binary64 (of_int (- n) * 2 powi 0) = of_int (- n) * 2 powi 0"
      using n by (intro binary64_exact) simp_all
    then show ?thesis by (simp add: binary64_minus)
  qed
qed

lemma binary64_numeral: "(numeral w :: int) \<le> 2 ^ 53 \<Longrightarrow> binary64 (numeral w) = numeral w"
  using binary64_of_int [of "numeral w"] by simp

lemma binary64_one [simp]: "binary64 1 = 1"
  using binary64_of_int [of 1] by simp

lemma binary64_dyadic:
  "0 < n \<Longrightarrow> n \<le> 2 ^ 53 \<Longrightarrow> binary64 (of_int n / 2 ^ j) = of_int n / 2 ^ j"
  using binary64_exact [of n "- int j"] by (simp add: power_int_minus field_simps)

lemma binary64_error:
  assumes "0 < x"
  shows "\<bar>binary64 x - x\<bar> \<le> 2 powi (binade x - 53)"
proof -
  let ?u = "(2::real) powi (binade x - 52)"
  let ?y = "x / ?u"
  have u: "0 < ?u" by simp
  have "binary64 x - x = ?u * (of_int (round_even ?y) - ?y)"
    by (simp add: binary64_pos [OF assms] algebra_simps)
  then have "\<bar>binary64 x - x\<bar> = ?u * \<bar>of_int (round_even ?y) - ?y\<bar>"
    using u by (simp add: abs_mult)
  also have "\<dots> \<le> ?u * (1 / 2)"
    using round_even_near [of ?y] u by (intro mult_left_mono) simp_all
  also have "\<dots> = 2 powi (binade x - 53)"
    using power_int_diff [of "2::real" "binade x - 52" 1] by simp
  finally show ?thesis .
qed

lemma binary64_unit_error:
  assumes "0 \<le> y" and "y \<le> 1"
  shows "binary64 y \<le> y + 1 / 2 ^ 54"
proof -
  consider "y = 0" | "y = 1" | "0 < y" "y < 1" using assms by linarith
  then show ?thesis
  proof cases
    case 1 then show ?thesis by simp
  next
    case 2 then show ?thesis by simp
  next
    case 3
    have "(2::real) powi binade y \<le> y" by (rule binade_bounds(1) [OF 3(1)])
    with 3(2) have "(2::real) powi binade y < 2 powi 0" by simp
    then have "binade y < 0" by (rule two_powi_less_D)
    then have "binade y - 53 \<le> - 54" by simp
    then have "(2::real) powi (binade y - 53) \<le> 2 powi (- 54)"
      by (intro power_int_increasing) simp_all
    with binary64_error [OF 3(1)] show ?thesis by (simp add: power_int_minus field_simps) 
  qed
qed

section \<open>The damage law in double precision\<close>

text \<open>The quotient \<open>kappa0 / kappa\<close> of two doubles \<open>kappa0 < kappa\<close> is at most
  \<open>1 - 2\<^sup>-\<^sup>5\<^sup>3\<close>, and its rounded product with a factor between 0 and 1 is at most the
  greatest double below 1.\<close>

lemma representable_mantissa:
  assumes "0 < x" and "fl x = x"
  shows "x = of_int (round_even (x / 2 powi (binade x - 52))) * 2 powi (binade x - 52)"
    and "round_even (x / 2 powi (binade x - 52)) < 2 ^ 53"
proof -
  let ?u = "(2::real) powi (binade x - 52)"
  let ?n = "round_even (x / ?u)"
  show eq: "x = of_int ?n * ?u"
    using binary64_pos [OF assms(1)] assms(2) by (simp add: mult.commute)
  have "x / ?u = of_int ?n" using eq by (simp add: field_simps)
  with scaled_range(2) [OF assms(1)] have "(of_int ?n :: real) < 2 ^ 53" by simp
  then show "?n < 2 ^ 53" by (metis of_int_less_iff of_int_numeral of_int_power)
qed

lemma representable_ratio:
  assumes k0: "0 < k0" "fl k0 = k0" and k: "k0 < k" "fl k = k"
  shows "k0 / k \<le> 1 - 1 / 2 ^ 53"
proof -
  have kpos: "0 < k" using k0 k by simp
  define u0 where "u0 = (2::real) powi (binade k0 - 52)"
  define u where "u = (2::real) powi (binade k - 52)"
  define n0 where "n0 = round_even (k0 / u0)"
  define n where "n = round_even (k / u)"
  have u0: "0 < u0" and u: "0 < u" by (simp_all add: u0_def u_def)
  have k0_eq: "k0 = of_int n0 * u0" and n0: "n0 < 2 ^ 53"
    using representable_mantissa [OF k0] by (simp_all add: u0_def n0_def)
  have k_eq: "k = of_int n * u" and n: "n < 2 ^ 53"
    using representable_mantissa [OF kpos k(2)] by (simp_all add: u_def n_def)
  have le: "binade k0 \<le> binade k" using k0(1) k(1) by (intro binade_mono) simp_all
  have goal: "k0 \<le> k - k / 2 ^ 53"
  proof (cases "binade k0 = binade k")
    case True
    then have uu: "u0 = u" by (simp add: u0_def u_def)
    have "of_int n0 * u < of_int n * u" using k(1) by (simp only: k0_eq k_eq uu)
    then have "(of_int n0 :: real) < of_int n" using u by simp
    then have "n0 + 1 \<le> n" by simp
    then have "(of_int n0 :: real) + 1 \<le> of_int n" by (metis of_int_1 of_int_add of_int_le_iff)
    then have "(of_int n0 + 1) * u \<le> of_int n * u" using u by (intro mult_right_mono) simp_all
    then have a: "k0 + u \<le> k" by (simp only: k0_eq k_eq uu) (simp add: algebra_simps)
    have "(of_int n :: real) \<le> 2 ^ 53"
      using n by (metis less_imp_le of_int_le_iff of_int_numeral of_int_power)
    then have "of_int n * u \<le> 2 ^ 53 * u" using u by (intro mult_right_mono) simp_all
    then have "k / 2 ^ 53 \<le> u" by (simp only: k_eq) (simp add: field_simps)
    with a show ?thesis by linarith
  next
    case False
    with le have lt: "binade k0 + 1 \<le> binade k" by simp
    define B where "B = (2::real) powi (binade k0 + 1)"
    have B: "B = 2 ^ 53 * u0"
      using power_int_add [of "2::real" 53 "binade k0 - 52"] by (simp add: B_def u0_def add.commute)
    have "n0 \<le> 2 ^ 53 - 1" using n0 by simp
    then have "(of_int n0 :: real) \<le> of_int (2 ^ 53 - 1)" by (simp only: of_int_le_iff)
    then have "(of_int n0 :: real) \<le> 2 ^ 53 - 1" by simp
    then have "of_int n0 * u0 \<le> (2 ^ 53 - 1) * u0" using u0 by (intro mult_right_mono) simp_all
    then have a: "k0 \<le> B - u0" by (simp only: k0_eq B) (simp add: algebra_simps)
    have "B \<le> 2 powi binade k" unfolding B_def using lt by (intro power_int_increasing) simp_all
    also have "\<dots> \<le> k" by (rule binade_bounds(1) [OF kpos])
    finally have Bk: "B \<le> k" .
    have "B - B / 2 ^ 53 \<le> k - k / 2 ^ 53" using Bk by (simp add: field_simps)
    moreover have "B / 2 ^ 53 = u0" by (simp add: B)
    ultimately show ?thesis using a by linarith
  qed
  have "k0 / k \<le> (k - k / 2 ^ 53) / k" using goal kpos by (intro divide_right_mono) simp_all
  also have "\<dots> = 1 - 1 / 2 ^ 53" using kpos by (simp add: field_simps)
  finally show ?thesis .
qed

lemma fl_below_one: "fl (1 - 1 / 2 ^ 53) = 1 - 1 / 2 ^ 53"
proof -
  have "fl (of_int (2 ^ 53 - 1) / 2 ^ 53) = of_int (2 ^ 53 - 1) / 2 ^ 53"
    by (rule binary64_dyadic) simp_all
  moreover have "of_int (2 ^ 53 - 1) / 2 ^ 53 = (1 - 1 / 2 ^ 53 :: real)" by simp
  ultimately show ?thesis by simp
qed

lemma fl_tiny: "fl (1 / 2 ^ 53) = 1 / 2 ^ 53"
  using binary64_dyadic [of 1 53] by simp

lemma fl_tie_one: "fl (1 + 1 / 2 ^ 53) = 1"
proof -
  have x: "(0::real) < 1 + 1 / 2 ^ 53" by simp
  have "fl (1 + 1 / 2 ^ 53) = 2 powi (0 - 52) * of_int (round_even ((1 + 1 / 2 ^ 53) / 2 powi (0 - 52)))"
    by (rule binary64_eval [OF x]) simp_all
  moreover have "(1 + 1 / 2 ^ 53) / 2 powi (0 - 52) = (of_int (2 ^ 52) + 1 / 2 :: real)"
    by (simp add: power_int_minus field_simps)
  moreover have "round_even (of_int (2 ^ 52) + 1 / 2) = 2 ^ 52"
    by (rule round_even_tie_even) simp
  ultimately show ?thesis by (simp add: power_int_minus)
qed

lemma omega_d_eq:
  "dl_k0 law < k \<Longrightarrow> fst (DamageLawExponential_evaluate_d fexp law k)
     = fl (1 - fl (fl (dl_k0 law / k) * softening_d fexp law k))"
  by (simp add: DamageLawExponential_evaluate_d_def Let_def softening_d_def)

lemma exponent_d_nonpos:
  assumes "0 \<le> dl_b law" and "dl_k0 law \<le> k"
  shows "fl (dl_b law * fl (dl_k0 law - k)) \<le> 0"
proof -
  have "fl (dl_k0 law - k) \<le> 0" using assms(2) by (intro binary64_nonpos) simp
  then have "dl_b law * fl (dl_k0 law - k) \<le> 0" using assms(1) by (simp add: mult_nonneg_nonpos)
  then show ?thesis by (rule binary64_nonpos)
qed

lemma softening_d_bounds:
  assumes f: "exp_like fexp" and a: "0 \<le> dl_a law" "dl_a law \<le> 1" and b: "0 \<le> dl_b law"
    and k: "dl_k0 law \<le> k"
  shows "0 \<le> softening_d fexp law k" and "softening_d fexp law k \<le> 1"
proof -
  let ?e = "fexp (fl (dl_b law * fl (dl_k0 law - k)))"
  have e: "0 \<le> ?e" "?e \<le> 1"
    using f exponent_d_nonpos [OF b k] by (simp_all add: exp_like_def)
  have ae: "0 \<le> dl_a law * ?e" "dl_a law * ?e \<le> dl_a law"
    using a e by (simp_all add: mult_left_le)
  have p1: "0 \<le> fl (1 - dl_a law)" using a by (intro binary64_nonneg) simp
  have p2: "0 \<le> fl (dl_a law * ?e)" using ae by (intro binary64_nonneg)
  show "0 \<le> softening_d fexp law k"
    unfolding softening_d_def using p1 p2 by (intro binary64_nonneg) simp
  have "fl (1 - dl_a law) \<le> (1 - dl_a law) + 1 / 2 ^ 54"
    using a by (intro binary64_unit_error) simp_all
  moreover have "fl (dl_a law * ?e) \<le> dl_a law * ?e + 1 / 2 ^ 54"
    using ae a by (intro binary64_unit_error) simp_all
  ultimately have "fl (1 - dl_a law) + fl (dl_a law * ?e) \<le> 1 + 1 / 2 ^ 53"
    using ae by simp
  then have "fl (fl (1 - dl_a law) + fl (dl_a law * ?e)) \<le> fl (1 + 1 / 2 ^ 53)"
    by (rule binary64_mono)
  then show "softening_d fexp law k \<le> 1" by (simp only: softening_d_def fl_tie_one)
qed

lemma softening_d_antimono:
  assumes f: "exp_like fexp" and a: "0 \<le> dl_a law" and b: "0 \<le> dl_b law"
    and k: "dl_k0 law \<le> k1" "k1 \<le> k2"
  shows "softening_d fexp law k2 \<le> softening_d fexp law k1"
proof -
  let ?x1 = "fl (dl_b law * fl (dl_k0 law - k1))" and ?x2 = "fl (dl_b law * fl (dl_k0 law - k2))"
  have "fl (dl_k0 law - k2) \<le> fl (dl_k0 law - k1)" using k(2) by (intro binary64_mono) simp
  then have "dl_b law * fl (dl_k0 law - k2) \<le> dl_b law * fl (dl_k0 law - k1)"
    using b by (intro mult_left_mono)
  then have "?x2 \<le> ?x1" by (rule binary64_mono)
  moreover have "?x1 \<le> 0" by (rule exponent_d_nonpos [OF b k(1)])
  ultimately have "fexp ?x2 \<le> fexp ?x1" using f by (simp add: exp_like_def)
  then have "dl_a law * fexp ?x2 \<le> dl_a law * fexp ?x1" using a by (intro mult_left_mono)
  then have "fl (dl_a law * fexp ?x2) \<le> fl (dl_a law * fexp ?x1)" by (rule binary64_mono)
  then show ?thesis unfolding softening_d_def by (intro binary64_mono) simp
qed

lemma omega_d_bounds:
  assumes f: "exp_like fexp"
    and k0: "0 < dl_k0 law" "fl (dl_k0 law) = dl_k0 law"
    and a: "0 \<le> dl_a law" "dl_a law \<le> 1" and b: "0 \<le> dl_b law"
    and k: "dl_k0 law < k" "fl k = k"
  shows "0 < fst (DamageLawExponential_evaluate_d fexp law k)"
    and "fst (DamageLawExponential_evaluate_d fexp law k) \<le> 1"
proof -
  let ?q = "fl (dl_k0 law / k)" and ?g = "softening_d fexp law k"
  have kpos: "0 < k" using k0 k by simp
  have g: "0 \<le> ?g" "?g \<le> 1" using softening_d_bounds [OF f a b] k(1) by simp_all
  have q0: "0 \<le> ?q" using k0(1) kpos by (intro binary64_nonneg) simp
  have "?q \<le> fl (1 - 1 / 2 ^ 53)"
    using representable_ratio [OF k0 k] by (rule binary64_mono)
  then have q1: "?q \<le> 1 - 1 / 2 ^ 53" by (simp only: fl_below_one)
  have "?q * ?g \<le> ?q * 1" using g q0 by (intro mult_left_mono)
  with q1 have "?q * ?g \<le> 1 - 1 / 2 ^ 53" by simp
  then have "fl (?q * ?g) \<le> fl (1 - 1 / 2 ^ 53)" by (rule binary64_mono)
  then have p1: "fl (?q * ?g) \<le> 1 - 1 / 2 ^ 53" by (simp only: fl_below_one)
  have p0: "0 \<le> fl (?q * ?g)" using q0 g by (intro binary64_nonneg) simp
  have "1 / 2 ^ 53 \<le> 1 - fl (?q * ?g)" using p1 by simp
  then have "fl (1 / 2 ^ 53) \<le> fl (1 - fl (?q * ?g))" by (rule binary64_mono)
  then have "1 / 2 ^ 53 \<le> fl (1 - fl (?q * ?g))" by (simp only: fl_tiny)
  moreover have "(0::real) < 1 / 2 ^ 53" by simp
  ultimately show "0 < fst (DamageLawExponential_evaluate_d fexp law k)"
    by (simp only: omega_d_eq [OF k(1)])
  have "fl (1 - fl (?q * ?g)) \<le> fl 1" using p0 by (intro binary64_mono) simp
  then show "fst (DamageLawExponential_evaluate_d fexp law k) \<le> 1"
    by (simp add: omega_d_eq [OF k(1)])
qed

lemma omega_d_mono:
  assumes f: "exp_like fexp"
    and k0: "0 < dl_k0 law"
    and a: "0 \<le> dl_a law" "dl_a law \<le> 1" and b: "0 \<le> dl_b law"
    and k: "dl_k0 law < k1" "k1 \<le> k2"
  shows "fst (DamageLawExponential_evaluate_d fexp law k1)
       \<le> fst (DamageLawExponential_evaluate_d fexp law k2)"
proof -
  let ?q1 = "fl (dl_k0 law / k1)" and ?q2 = "fl (dl_k0 law / k2)"
  let ?g1 = "softening_d fexp law k1" and ?g2 = "softening_d fexp law k2"
  have k2: "dl_k0 law < k2" using k by simp
  have pos: "0 < k1" "0 < k2" using k0 k by simp_all
  have "dl_k0 law / k2 \<le> dl_k0 law / k1" using k0 pos k(2) by (simp add: frac_le)
  then have q: "?q2 \<le> ?q1" by (rule binary64_mono)
  have q2: "0 \<le> ?q2" using k0 pos by (intro binary64_nonneg) simp
  have g: "?g2 \<le> ?g1" using k by (intro softening_d_antimono [OF f a(1) b]) simp_all
  have g2: "0 \<le> ?g2" using k2 by (intro softening_d_bounds(1) [OF f a b]) simp
  have "?q2 * ?g2 \<le> ?q1 * ?g1" using q g q2 g2 by (intro mult_mono) simp_all
  then have "fl (?q2 * ?g2) \<le> fl (?q1 * ?g1)" by (rule binary64_mono)
  then have "fl (1 - fl (?q1 * ?g1)) \<le> fl (1 - fl (?q2 * ?g2))" by (intro binary64_mono) simp
  then show ?thesis by (simp only: omega_d_eq [OF k(1)] omega_d_eq [OF k2])
qed

lemma exp_d_like: "exp_like exp_d"
  unfolding exp_like_def exp_d_def
proof (intro conjI allI impI)
  fix x :: real
  assume "x \<le> 0"
  show "0 \<le> fl (exp x)" by (intro binary64_nonneg) simp
  have "fl (exp x) \<le> fl 1" using \<open>x \<le> 0\<close> by (intro binary64_mono) simp
  then show "fl (exp x) \<le> 1" by simp
next
  fix x y :: real
  assume "x \<le> y \<and> y \<le> 0"
  then show "fl (exp x) \<le> fl (exp y)" by (intro binary64_mono) simp
qed

lemma fl_absorb_one:
  assumes "0 \<le> p" and "p \<le> 1 / 2 ^ 54"
  shows "fl (1 - p) = 1"
proof -
  have "fl (1 - 1 / 2 ^ 54) = 1"
  proof -
    have x: "(0::real) < 1 - 1 / 2 ^ 54" by simp
    have "fl (1 - 1 / 2 ^ 54)
        = 2 powi (- 1 - 52) * of_int (round_even ((1 - 1 / 2 ^ 54) / 2 powi (- 1 - 52)))"
      by (rule binary64_eval [OF x]) (simp_all add: power_int_minus)
    moreover have "(1 - 1 / 2 ^ 54) / 2 powi (- 1 - 52) = (of_int (2 ^ 53 - 1) + 1 / 2 :: real)"
      by (simp add: power_int_minus field_simps)
    moreover have "round_even (of_int (2 ^ 53 - 1) + 1 / 2) = (2 ^ 53 - 1) + 1"
      by (rule round_even_tie_odd) simp
    ultimately show ?thesis by (simp add: power_int_minus)
  qed
  moreover have "fl (1 - 1 / 2 ^ 54) \<le> fl (1 - p)" using assms(2) by (intro binary64_mono) simp
  moreover have "fl (1 - p) \<le> fl 1" using assms(1) by (intro binary64_mono) simp
  ultimately show ?thesis by simp
qed

lemma exp_minus_100: "exp (- 100 :: real) \<le> 1 / 2 ^ 100"
proof -
  have "(2::real) \<le> exp 1" using exp_ge_add_one_self [of "1::real"] by simp
  then have "(2::real) ^ 100 \<le> exp 1 ^ 100" by (intro power_mono) simp_all
  also have "exp (1::real) ^ 100 = exp 100" by (simp flip: exp_of_nat_mult)
  finally have "(2::real) ^ 100 \<le> exp 100" .
  then have "inverse (exp (100::real)) \<le> inverse (2 ^ 100)" by (intro le_imp_inverse_le) simp_all
  then show ?thesis by (simp add: exp_minus inverse_eq_divide)
qed

lemma omega_d_saturates:
  assumes "100 \<le> kappa - 1" and "fl (1 - kappa) = 1 - kappa"
  shows "fst (DamageLawExponential_evaluate_d exp_d \<lparr>dl_k0 = 1, dl_a = 1, dl_b = 1\<rparr> kappa) = 1"
proof -
  let ?law = "\<lparr>dl_k0 = 1, dl_a = 1, dl_b = 1\<rparr>"
  have k: "dl_k0 ?law < kappa" using assms(1) by simp
  have "exp (1 - kappa) \<le> exp (- 100)" using assms(1) by simp
  also have "\<dots> \<le> 1 / 2 ^ 100" by (rule exp_minus_100)
  finally have "fl (exp (1 - kappa)) \<le> fl (1 / 2 ^ 100)" by (rule binary64_mono)
  moreover have "fl (1 / 2 ^ 100) = 1 / 2 ^ 100" using binary64_dyadic [of 1 100] by simp
  ultimately have e1: "exp_d (1 - kappa) \<le> 1 / 2 ^ 100" by (simp add: exp_d_def)
  have e0: "0 \<le> exp_d (1 - kappa)" unfolding exp_d_def by (intro binary64_nonneg) simp
  have g: "softening_d exp_d ?law kappa = exp_d (1 - kappa)"
    by (simp add: softening_d_def assms(2) exp_d_def binary64_idem)
  have q0: "0 \<le> fl (1 / kappa)" using assms(1) by (intro binary64_nonneg) simp
  have "fl (1 / kappa) \<le> fl 1" using assms(1) by (intro binary64_mono) simp
  then have q1: "fl (1 / kappa) \<le> 1" by simp
  have "fl (1 / kappa) * exp_d (1 - kappa) \<le> 1 * (1 / 2 ^ 100)"
    using q0 q1 e0 e1 by (intro mult_mono) simp_all
  then have "fl (fl (1 / kappa) * exp_d (1 - kappa)) \<le> fl (1 / 2 ^ 100)"
    by (intro binary64_mono) simp
  then have p1: "fl (fl (1 / kappa) * exp_d (1 - kappa)) \<le> 1 / 2 ^ 54"
    using binary64_dyadic [of 1 100] by simp
  have p0: "0 \<le> fl (fl (1 / kappa) * exp_d (1 - kappa))"
    using q0 e0 by (intro binary64_nonneg) simp
  show ?thesis
    using fl_absorb_one [OF p0 p1] by (simp add: omega_d_eq [OF k] g)
qed

section \<open>The equivalent strain in double precision\<close>

text \<open>The rounding keeps the sign, so the norm \<open>A\<close> is at least the rounded \<open>10\<^sup>-\<^sup>1\<^sup>4\<close>;
  then one construction on which the sum \<open>K1 * I1 + A\<close> is negative, rounding by
  rounding.\<close>

lemma mat_vec_d_Inr_iff:
  "mat_vec_d M v = Inr w \<longleftrightarrow> m_cols M = length v \<and>
     w = map (\<lambda>r. foldl (\<lambda>acc c. fl (acc + fl (coeff M r c * v ! c))) 0 [0..<m_cols M])
           [0..<m_rows M]"
  by (auto simp: mat_vec_d_def)


lemma ModMisesEeq_evaluate_d_Inr:
  assumes "ModMisesEeq_evaluate_d m strain = Inr (eeq, deeq)"
  shows "\<exists>v. mat_vec_d (mm_T3D m) strain = Inr v
           \<and> eeq = eeq_d m v"
  using assms
  by (auto simp: ModMisesEeq_evaluate_d_def and_then_Inr_iff Let_def case_prod_beta
      norm_A_d_def eeq_d_def as_V_FULL_def split: if_splits)

lemma InvariantJ2_d_nonneg: "0 \<le> fst (InvariantJ2_d v)"
  unfolding InvariantJ2_d_def fst_conv
  by (intro binary64_nonneg add_nonneg_nonneg mult_nonneg_nonneg divide_nonneg_nonneg
      zero_le_square) simp_all

lemma fl_c14_pos: "0 < fl (1 / 10 ^ 14)"
  by (intro binary64_pos_pos) simp

lemma norm_A_d_ge:
  assumes "0 \<le> mm_K2 m"
  shows "fl (1 / 10 ^ 14) \<le> norm_A_d m v"
proof -
  let ?I1 = "fst (InvariantI1_d v)"
  have "0 \<le> fl (fl (mm_K1 m * mm_K1 m) * ?I1) * ?I1"
  proof -
    have k: "0 \<le> fl (mm_K1 m * mm_K1 m)" by (intro binary64_nonneg) simp
    show ?thesis
    proof (cases "0 \<le> ?I1")
      case True
      with k have "0 \<le> fl (fl (mm_K1 m * mm_K1 m) * ?I1)" by (intro binary64_nonneg) simp
      with True show ?thesis by simp
    next
      case False
      with k have "fl (fl (mm_K1 m * mm_K1 m) * ?I1) \<le> 0"
        by (intro binary64_nonpos) (simp add: mult_nonneg_nonpos)
      with False show ?thesis by (simp add: mult_nonpos_nonpos)
    qed
  qed
  then have r1: "0 \<le> fl (fl (fl (mm_K1 m * mm_K1 m) * ?I1) * ?I1)" by (rule binary64_nonneg)
  have r2: "0 \<le> fl (mm_K2 m * fst (InvariantJ2_d v))"
    using assms InvariantJ2_d_nonneg by (intro binary64_nonneg) simp
  have "0 \<le> fl (fl (fl (fl (mm_K1 m * mm_K1 m) * ?I1) * ?I1) + fl (mm_K2 m * fst (InvariantJ2_d v)))"
    using r1 r2 by (intro binary64_nonneg) simp
  then have "0 \<le> fl (sqrt (fl (fl (fl (fl (mm_K1 m * mm_K1 m) * ?I1) * ?I1)
                        + fl (mm_K2 m * fst (InvariantJ2_d v)))))"
    by (intro binary64_nonneg) simp
  then have "fl (fl (1 / 10 ^ 14)) \<le> norm_A_d m v"
    unfolding norm_A_d_def by (intro binary64_mono) simp
  then show ?thesis by (simp only: binary64_idem)
qed


lemma binary64_eq_zero_iff: "fl x = 0 \<longleftrightarrow> x = 0"
proof
  assume z: "fl x = 0"
  show "x = 0"
  proof (rule ccontr)
    assume "x \<noteq> 0"
    then consider "0 < x" | "0 < - x" by linarith
    then show False
    proof cases
      case 1
      from binary64_pos_pos [OF this] z show False by simp
    next
      case 2
      from binary64_pos_pos [OF this] z show False by (simp add: binary64_minus)
    qed
  qed
qed simp






lemma norm_A_d_divisors:
  assumes "0 \<le> mm_K2 m"
  shows "norm_A_d m v \<noteq> 0" and "fl (2 * norm_A_d m v) \<noteq> 0"
  using norm_A_d_ge [OF assms, of v] fl_c14_pos by (simp_all add: binary64_eq_zero_iff)










lemma fl_neg_numeral: "(numeral w :: int) \<le> 2 ^ 53 \<Longrightarrow> fl (- numeral w) = - numeral w"
  by (simp add: binary64_minus binary64_numeral)







section \<open>The loading function\<close>

text \<open>
  C1. For all reals \<open>eeq\<close> and \<open>kappa\<close>, \<open>evaluate_kappa\<close> of either law returns \<open>(eeq, 1)\<close>
  when \<open>eeq \<ge> kappa\<close> and \<open>(kappa, 0)\<close> when \<open>eeq < kappa\<close>; the tie \<open>eeq = kappa\<close> is
  loading, and the derivative returned is 0 or 1.
\<close>

theorem evaluate_kappa_branches:
  "(eeq \<ge> kappa \<longrightarrow> LocalDamage_evaluate_kappa eeq kappa = (eeq, 1)
                  \<and> GradientDamage_evaluate_kappa eeq kappa = (eeq, 1))
   \<and> (eeq < kappa \<longrightarrow> LocalDamage_evaluate_kappa eeq kappa = (kappa, 0)
                  \<and> GradientDamage_evaluate_kappa eeq kappa = (kappa, 0))
   \<and> LocalDamage_evaluate_kappa kappa kappa = (kappa, 1)
   \<and> GradientDamage_evaluate_kappa kappa kappa = (kappa, 1)
   \<and> snd (LocalDamage_evaluate_kappa eeq kappa) \<in> {0, 1}
   \<and> snd (GradientDamage_evaluate_kappa eeq kappa) \<in> {0, 1}"
  by (simp add: LocalDamage_evaluate_kappa_def GradientDamage_evaluate_kappa_def)

theorem evaluate_kappa_branches_witness:
  "LocalDamage_evaluate_kappa 3 2 = (3, 1) \<and> GradientDamage_evaluate_kappa 3 2 = (3, 1)
   \<and> LocalDamage_evaluate_kappa 1 2 = (2, 0) \<and> GradientDamage_evaluate_kappa 1 2 = (2, 0)"
  using evaluate_kappa_branches [of 2 3] evaluate_kappa_branches [of 2 1] by simp

section \<open>Resizing the history\<close>

text \<open>
  C2 says that \<open>resize n\<close> of either law leaves a history of length \<open>n\<close> with every
  stored kappa zero. The local law calls \<^verbatim>\<open>_kappa.resize(n)\<close> of Eigen, which sets nothing
  to zero. On the example law, after one update has stored \<open>1 + 10\<^sup>-\<^sup>1\<^sup>4\<close> at the only
  point, \<open>resize 1\<close> leaves that value in place; and a history grown from no point to two
  holds whatever the new storage holds.
\<close>

theorem LocalDamage_resize_keeps_history:
  "LocalDamage_update local_example [1] 0 = Inr (local_example\<lparr>ld_kappa := [1 + 1 / 10 ^ 14]\<rparr>)
   \<and> LocalDamage_resize uninit 1 (local_example\<lparr>ld_kappa := [1 + 1 / 10 ^ 14]\<rparr>)
       = Inr (local_example\<lparr>ld_kappa := [1 + 1 / 10 ^ 14]\<rparr>)
   \<and> LocalDamage_resize uninit 2 (local_example\<lparr>ld_kappa := []\<rparr>)
       = Inr (local_example\<lparr>ld_kappa := [uninit 0, uninit 1]\<rparr>)"
  by (simp add: local_example_update_one LocalDamage_resize_def VectorXd_resize_def
      and_then_simps upt_rec)

text \<open>
  The gradient-enhanced law resizes through \<open>QValues_Resize\<close>, that is \<^verbatim>\<open>setZero\<close>: its
  history is one scalar per point (the constructor makes it 1 by 1, and nothing changes
  that shape), and after \<open>resize n\<close> it holds \<open>n\<close> zeros.
\<close>

theorem GradientDamage_resize_zeroes:
  assumes "q_rows (gd_kappa g) = 1" and "q_cols (gd_kappa g) = 1" and "0 \<le> n"
  shows "\<exists>g'. GradientDamage_resize n g = Inr g'
           \<and> q_data (gd_kappa g') = replicate (nat n) 0
           \<and> q_rows (gd_kappa g') = 1 \<and> q_cols (gd_kappa g') = 1"
  using assms
  by (simp add: GradientDamage_resize_def QValues_Resize_def VectorXd_setZero_def and_then_simps)

theorem GradientDamage_resize_zeroes_witness:
  "\<exists>g'. GradientDamage_resize 3 (GradientDamage_init C_example 1 0 PLANE_STRAIN 1 (1 / 2) 0 1)
           = Inr g'
         \<and> q_data (gd_kappa g') = [0, 0, 0]"
proof -
  let ?g = "GradientDamage_init C_example 1 0 PLANE_STRAIN 1 (1 / 2) 0 1"
  have shape: "q_rows (gd_kappa ?g) = 1" "q_cols (gd_kappa ?g) = 1"
    by (simp_all add: GradientDamage_init_def QValues_init_def)
  have n: "(0::int) \<le> 3" by simp
  from GradientDamage_resize_zeroes [OF shape n]
  show ?thesis by (auto simp: eval_nat_numeral)
qed

section \<open>Evaluate leaves the history alone\<close>

text \<open>
  C3. For every strain, point and (for the gradient-enhanced law) nonlocal equivalent
  strain and output storage, an \<open>evaluate\<close> that returns leaves the stored history
  \<open>kappa\<close> as it was, at every point. (The outputs that the gradient-enhanced law
  writes are the elements of a vector the caller owns; the history is a member of the
  law, so no output is the history.)
\<close>

theorem evaluate_keeps_history:
  "(LocalDamage_evaluate law strain i = Inr (res, law') \<longrightarrow> ld_kappa law' = ld_kappa law)
   \<and> (GradientDamage_evaluate g strain2 e out j = Inr (out', g') \<longrightarrow> gd_kappa g' = gd_kappa g)"
  by (auto dest: LocalDamage_evaluate_frame GradientDamage_evaluate_frame)

theorem evaluate_keeps_history_witness:
  "(\<exists>res law'. LocalDamage_evaluate local_example [1] 0 = Inr (res, law')
       \<and> ld_kappa law' = ld_kappa local_example)
   \<and> (\<exists>out' g'. GradientDamage_evaluate gradient_example [1, 0, 0] 2 out_example 0 = Inr (out', g')
       \<and> gd_kappa g' = gd_kappa gradient_example)"
proof -
  obtain res law' where a: "LocalDamage_evaluate local_example [1] 0 = Inr (res, law')"
    using local_example_evaluate by simp
  obtain out' g' where
    b: "GradientDamage_evaluate gradient_example [1, 0, 0] 2 out_example 0 = Inr (out', g')"
    using gradient_example_evaluate by simp
  from evaluate_keeps_history
    [of local_example "[1]" 0 res law' gradient_example "[1, 0, 0]" 2 out_example 0 out' g'] a b
  show ?thesis by blast
qed

text \<open>
  The batch driver inherits this: an \<open>evaluate\<close> pass over all points that returns has
  written outputs only, and the law it refers to, with its history, is as before.
\<close>

theorem IpLoop_evaluate_keeps_law:
  assumes "IpLoop_evaluate all_strains all_neeq loop = Inr loop'"
  shows "ip_law loop' = ip_law loop \<and> ip_n loop' = ip_n loop"
  using assms unfolding IpLoop_evaluate_def by (rule IpLoop_evaluate_from_frame)

theorem IpLoop_evaluate_keeps_law_witness:
  "\<exists>loop'. IpLoop_evaluate [1, 0, 0] [2] loop_example = Inr loop'
     \<and> gd_kappa (ip_law loop') = gd_kappa gradient_example"
proof -
  obtain loop' where a: "IpLoop_evaluate [1, 0, 0] [2] loop_example = Inr loop'"
    using loop_example_evaluate by blast
  from IpLoop_evaluate_keeps_law [OF a] have "ip_law loop' = gradient_example"
    by (simp add: loop_example_def)
  with a show ?thesis by auto
qed

section \<open>The history never decreases\<close>

text \<open>
  C4. For every point and every sequence of \<open>update\<close> calls with arbitrary driving values
  (the strain for the local law, the nonlocal equivalent strain for the gradient-enhanced
  law), the stored kappa of no point decreases: after each update that returns, and so
  after the whole sequence, the history has its length and every stored kappa is at least
  what it was.
\<close>

theorem kappa_never_decreases:
  "(LocalDamage_update law strain i = Inr law1 \<longrightarrow>
      length (ld_kappa law1) = length (ld_kappa law)
      \<and> (\<forall>p < length (ld_kappa law). ld_kappa law ! p \<le> ld_kappa law1 ! p))
   \<and> (LocalDamage_updates law xs = Inr law2 \<longrightarrow>
      length (ld_kappa law2) = length (ld_kappa law)
      \<and> (\<forall>p < length (ld_kappa law). ld_kappa law ! p \<le> ld_kappa law2 ! p))
   \<and> (GradientDamage_update g strain2 neeq j = Inr g1 \<longrightarrow>
      length (q_data (gd_kappa g1)) = length (q_data (gd_kappa g))
      \<and> (\<forall>p < length (q_data (gd_kappa g)). q_data (gd_kappa g) ! p \<le> q_data (gd_kappa g1) ! p))
   \<and> (GradientDamage_updates g ys = Inr g2 \<longrightarrow>
      length (q_data (gd_kappa g2)) = length (q_data (gd_kappa g))
      \<and> (\<forall>p < length (q_data (gd_kappa g)). q_data (gd_kappa g) ! p \<le> q_data (gd_kappa g2) ! p))"
  using LocalDamage_update_mono [of law strain i law1]
    LocalDamage_updates_mono [of law xs law2]
    GradientDamage_update_mono [of g strain2 neeq j g1]
    GradientDamage_updates_mono [of g ys g2]
  unfolding kappa_le_def by blast

theorem kappa_never_decreases_witness:
  "(\<exists>law2. LocalDamage_updates local_example [([1], 0), ([0], 0)] = Inr law2
      \<and> ld_kappa local_example ! 0 \<le> ld_kappa law2 ! 0)
   \<and> (\<exists>g2. GradientDamage_updates gradient_example [([1, 0, 0], 2, 0), ([0, 0, 0], 1, 0)] = Inr g2
      \<and> q_data (gd_kappa gradient_example) ! 0 \<le> q_data (gd_kappa g2) ! 0)"
proof -
  let ?law2 = "local_example\<lparr>ld_kappa := [1 + 1 / 10 ^ 14]\<rparr>"
  let ?g2 = "gradient_example\<lparr>gd_kappa := \<lparr>q_rows = 1, q_cols = 1, q_data = [2]\<rparr>\<rparr>"
  have a: "LocalDamage_updates local_example [([1], 0), ([0], 0)] = Inr ?law2"
    by (simp only: LocalDamage_updates.simps local_example_update_one local_example_update_zero
        and_then_simps)
  have b: "GradientDamage_updates gradient_example [([1, 0, 0], 2, 0), ([0, 0, 0], 1, 0)] = Inr ?g2"
    by (simp only: GradientDamage_updates.simps gradient_example_update_two
        gradient_example_update_one and_then_simps)
  have la: "0 < length (ld_kappa local_example)"
    by (simp add: local_example_def)
  have lb: "0 < length (q_data (gd_kappa gradient_example))"
    by (simp add: gradient_example_def)
  from kappa_never_decreases
    [of local_example "[1]" 0 "?law2" "[([1], 0), ([0], 0)]" "?law2"
        gradient_example "[1, 0, 0]" 2 0 "?g2" "[([1, 0, 0], 2, 0), ([0, 0, 0], 1, 0)]" "?g2"]
    a b la lb
  show ?thesis by blast
qed

text \<open>
  The same holds for an \<open>update\<close> pass of the batch driver over all points.
\<close>

theorem IpLoop_update_never_decreases:
  assumes "IpLoop_update all_strains all_neeq loop = Inr loop'"
  shows "length (q_data (gd_kappa (ip_law loop'))) = length (q_data (gd_kappa (ip_law loop)))
         \<and> (\<forall>p < length (q_data (gd_kappa (ip_law loop))).
              q_data (gd_kappa (ip_law loop)) ! p \<le> q_data (gd_kappa (ip_law loop')) ! p)"
  using IpLoop_update_from_mono [OF assms [unfolded IpLoop_update_def]]
  unfolding kappa_le_def by blast

theorem IpLoop_update_never_decreases_witness:
  "\<exists>loop'. IpLoop_update [1, 0, 0] [2] loop_example = Inr loop'
     \<and> q_data (gd_kappa (ip_law loop_example)) ! 0 \<le> q_data (gd_kappa (ip_law loop')) ! 0"
proof -
  obtain loop' where a: "IpLoop_update [1, 0, 0] [2] loop_example = Inr loop'"
    using loop_example_update by simp
  have l: "0 < length (q_data (gd_kappa (ip_law loop_example)))"
    by (simp add: loop_example_def gradient_example_def)
  from IpLoop_update_never_decreases [OF a] l a show ?thesis by blast
qed

section \<open>The range of the damage\<close>

text \<open>
  C5 as stated holds for every \<open>kappa \<le> kappa0\<close>, where \<open>evaluate\<close> returns \<open>(0, 0)\<close>, and
  fails beyond the threshold for parameters the constructors accept: with \<open>ft = E = 1\<close>
  (\<open>kappa0 = 1\<close>), \<open>alpha = 2\<close> and \<open>beta = ft / gf = 1\<close>, the damage at \<open>kappa = 3\<close> is
  above 1.
\<close>

theorem DamageLawExponential_omega_above_one:
  "dl_k0 (ld_omega (LocalDamage_init C_example 1 0 UNIAXIAL_STRAIN 1 2 1 1)) < 3
   \<and> 1 < fst (DamageLawExponential_evaluate
              (ld_omega (LocalDamage_init C_example 1 0 UNIAXIAL_STRAIN 1 2 1 1)) 3)"
  using exp_minus_two
  by (simp add: LocalDamage_init_def DamageLawExponential_evaluate_def Let_def)

text \<open>
  Inside the ranges \<open>kappa0 > 0\<close>, \<open>0 \<le> alpha \<le> 1\<close>, \<open>beta \<ge> 0\<close> the real-valued curve
  stays below 1 and increases strictly (\<open>omega_bounds\<close>, \<open>omega_strict_mono\<close>); the
  doubles that \<open>evaluate\<close> returns do not. With \<open>kappa0 = alpha = beta = 1\<close> and the
  correctly rounded exponential, the damage at \<open>kappa = 101\<close> and at \<open>kappa = 102\<close> is
  the double 1: the product \<open>kappa0 / kappa * exp (kappa0 - kappa)\<close> is below half a unit
  in the last place of 1.
\<close>

theorem DamageLawExponential_omega_saturates:
  "fst (DamageLawExponential_evaluate_d exp_d \<lparr>dl_k0 = 1, dl_a = 1, dl_b = 1\<rparr> 101) = 1
   \<and> fst (DamageLawExponential_evaluate_d exp_d \<lparr>dl_k0 = 1, dl_a = 1, dl_b = 1\<rparr> 102) = 1"
proof -
  have "fl (1 - 101) = 1 - 101" "fl (1 - 102) = 1 - 102"
    by (simp_all add: fl_neg_numeral)
  then show ?thesis
    using omega_d_saturates [of 101] omega_d_saturates [of 102] by simp
qed

text \<open>
  C5, amended, in double precision. For every \<open>kappa \<le> kappa0\<close>, \<open>evaluate\<close> returns
  \<open>(0, 0)\<close>. When \<open>kappa0 > 0\<close>, \<open>0 \<le> alpha \<le> 1\<close> and \<open>beta \<ge> 0\<close>, \<open>kappa0\<close> and \<open>kappa\<close> are
  doubles and the exponential of the library is \<open>exp_like\<close>, every \<open>kappa > kappa0\<close> has
  \<open>0 < omega \<le> 1\<close>, and \<open>omega\<close> does not decrease as \<open>kappa\<close> grows.
\<close>

theorem DamageLawExponential_omega_range_double:
  "(k \<le> dl_k0 law \<longrightarrow> DamageLawExponential_evaluate_d fexp law k = (0, 0))
   \<and> (exp_like fexp \<and> 0 < dl_k0 law \<and> fl (dl_k0 law) = dl_k0 law
        \<and> 0 \<le> dl_a law \<and> dl_a law \<le> 1 \<and> 0 \<le> dl_b law \<and> dl_k0 law < k \<and> fl k = k \<longrightarrow>
        0 < fst (DamageLawExponential_evaluate_d fexp law k)
        \<and> fst (DamageLawExponential_evaluate_d fexp law k) \<le> 1
        \<and> (\<forall>k'. k \<le> k' \<longrightarrow>
             fst (DamageLawExponential_evaluate_d fexp law k)
               \<le> fst (DamageLawExponential_evaluate_d fexp law k')))"
proof -
  have "DamageLawExponential_evaluate_d fexp law k = (0, 0)" if "k \<le> dl_k0 law"
    using that by (simp add: DamageLawExponential_evaluate_d_def)
  moreover have "0 < fst (DamageLawExponential_evaluate_d fexp law k)
      \<and> fst (DamageLawExponential_evaluate_d fexp law k) \<le> 1
      \<and> (\<forall>k'. k \<le> k' \<longrightarrow>
           fst (DamageLawExponential_evaluate_d fexp law k)
             \<le> fst (DamageLawExponential_evaluate_d fexp law k'))"
    if h: "exp_like fexp" "0 < dl_k0 law" "fl (dl_k0 law) = dl_k0 law"
      "0 \<le> dl_a law" "dl_a law \<le> 1" "0 \<le> dl_b law" "dl_k0 law < k" "fl k = k"
    using omega_d_bounds [OF h] omega_d_mono [OF h(1,2,4,5,6,7)] by blast
  ultimately show ?thesis by blast
qed

theorem DamageLawExponential_omega_range_double_witness:
  "DamageLawExponential_evaluate_d exp_d \<lparr>dl_k0 = 1, dl_a = 1 / 2, dl_b = 1\<rparr> 1 = (0, 0)
   \<and> exp_like exp_d
   \<and> 0 < fst (DamageLawExponential_evaluate_d exp_d \<lparr>dl_k0 = 1, dl_a = 1 / 2, dl_b = 1\<rparr> 2)
   \<and> fst (DamageLawExponential_evaluate_d exp_d \<lparr>dl_k0 = 1, dl_a = 1 / 2, dl_b = 1\<rparr> 2) \<le> 1
   \<and> fst (DamageLawExponential_evaluate_d exp_d \<lparr>dl_k0 = 1, dl_a = 1 / 2, dl_b = 1\<rparr> 2)
       \<le> fst (DamageLawExponential_evaluate_d exp_d \<lparr>dl_k0 = 1, dl_a = 1 / 2, dl_b = 1\<rparr> 4)"
proof -
  let ?law = "\<lparr>dl_k0 = 1, dl_a = 1 / 2, dl_b = 1\<rparr>"
  have h1: "(1::real) \<le> dl_k0 ?law" by simp
  have h2: "exp_like exp_d \<and> 0 < dl_k0 ?law \<and> fl (dl_k0 ?law) = dl_k0 ?law
      \<and> 0 \<le> dl_a ?law \<and> dl_a ?law \<le> 1 \<and> 0 \<le> dl_b ?law \<and> dl_k0 ?law < 2 \<and> fl 2 = 2"
    by (simp add: exp_d_like binary64_numeral)
  have h3: "(2::real) \<le> 4" by simp
  from DamageLawExponential_omega_range_double [of 1 ?law exp_d] h1
  have a: "DamageLawExponential_evaluate_d exp_d ?law 1 = (0, 0)" by blast
  from DamageLawExponential_omega_range_double [of 2 ?law exp_d] h2 h3
  have b: "0 < fst (DamageLawExponential_evaluate_d exp_d ?law 2)
      \<and> fst (DamageLawExponential_evaluate_d exp_d ?law 2) \<le> 1
      \<and> fst (DamageLawExponential_evaluate_d exp_d ?law 2)
          \<le> fst (DamageLawExponential_evaluate_d exp_d ?law 4)" by blast
  from a b exp_d_like show ?thesis by blast
qed

section \<open>The tangent of the gradient-enhanced law\<close>

text \<open>
  C6. For every strain, nonlocal equivalent strain \<open>e\<close> and point \<open>i\<close>, an \<open>evaluate\<close>
  of the gradient-enhanced law that returns has written, as the derivative of the stress
  by the strain at point \<open>i\<close>, exactly \<open>(1 - omega) * C\<close>, with \<open>omega\<close> the damage at the
  kappa that \<open>e\<close> and the stored history give: the secant stiffness, with no term in the
  local strain. (\<open>C\<close> is a matrix of Eigen: it holds rows times columns coefficients.)
\<close>

theorem GradientDamage_tangent_is_secant:
  assumes "GradientDamage_evaluate g strain e out i = Inr (out', g')"
    and "storage_ok (gd_C g)"
  shows "QValues_Get i (out' ! Q_index DSIGMA_DEPS) =
           Inr (scal_mat
                 (1 - fst (DamageLawExponential_evaluate (gd_omega g)
                        (fst (GradientDamage_evaluate_kappa e (q_data (gd_kappa g) ! nat i)))))
                 (gd_C g))"
  using assms by (rule GradientDamage_evaluate_tangent)

theorem GradientDamage_tangent_is_secant_witness:
  "\<exists>out' g'. GradientDamage_evaluate gradient_example [1, 0, 0] 2 out_example 0 = Inr (out', g')
     \<and> storage_ok (gd_C gradient_example)
     \<and> QValues_Get 0 (out' ! Q_index DSIGMA_DEPS)
         = Inr \<lparr>m_rows = 3, m_cols = 3, m_data = [1 / 2, 0, 0, 0, 1 / 2, 0, 0, 0, 1 / 2]\<rparr>"
proof -
  obtain out' g' where
    a: "GradientDamage_evaluate gradient_example [1, 0, 0] 2 out_example 0 = Inr (out', g')"
    using gradient_example_evaluate by simp
  have b: "storage_ok (gd_C gradient_example)"
    by (simp add: gradient_example_def GradientDamage_init_def C_example_PLANE_STRAIN storage_ok_def)
  have c: "scal_mat (1 - 1 / 2) (gd_C gradient_example)
      = \<lparr>m_rows = 3, m_cols = 3, m_data = [1 / 2, 0, 0, 0, 1 / 2, 0, 0, 0, 1 / 2]\<rparr>"
    by (simp add: gradient_example_def GradientDamage_init_def C_example_PLANE_STRAIN scal_mat_def)
  from GradientDamage_tangent_is_secant [OF a b] a b c
  show ?thesis by (simp only: gradient_example_omega) blast
qed

section \<open>The elastic branch of the local law\<close>

text \<open>
  C7. For a local law whose equivalent strain is built with the asymmetry ratio \<open>k > 0\<close>
  that the construction asks for, every fresh point (stored kappa zero) and every strain
  whose equivalent strain \<open>eeq\<close> is strictly below the threshold \<open>kappa0\<close>: \<open>evaluate\<close>
  returns the stress \<open>C * strain\<close> and the tangent \<open>C\<close>, exactly. (\<open>C\<close> is a matrix of
  Eigen with as many columns as the strain has components.)
\<close>

theorem LocalDamage_elastic_branch:
  assumes "ld_eeq law = ModMisesEeq_init k nu c" and "0 < k"
    and "storage_ok (ld_C law)" and "m_cols (ld_C law) = length strain"
    and "0 \<le> i" and "i < int (length (ld_kappa law))" and "ld_kappa law ! nat i = 0"
    and "ModMisesEeq_evaluate (ld_eeq law) strain = Inr (eeq, deeq)"
    and "eeq < dl_k0 (ld_omega law)"
  shows "\<exists>stress. mat_vec (ld_C law) strain = Inr stress
           \<and> LocalDamage_evaluate law strain i = Inr ((stress, ld_C law), law)"
proof -
  have "0 \<le> mm_K2 (ld_eeq law)"
    using assms(1,2) by (simp add: ModMisesEeq_init_K2)
  with assms(8) show ?thesis
    using assms(9,5,6,7,3,4) by (rule LocalDamage_evaluate_elastic)
qed

theorem LocalDamage_elastic_branch_witness:
  "ModMisesEeq_evaluate (ld_eeq local_example) [1]
       = Inr (1 + 1 / 10 ^ 14, [1 / (1 + 1 / 10 ^ 14)])
   \<and> 1 + 1 / 10 ^ 14 < dl_k0 (ld_omega local_example)
   \<and> ld_kappa local_example ! nat 0 = 0
   \<and> (\<exists>stress. mat_vec (ld_C local_example) [1] = Inr stress
        \<and> LocalDamage_evaluate local_example [1] 0
            = Inr ((stress, ld_C local_example), local_example))"
proof -
  have h1: "ld_eeq local_example = ModMisesEeq_init 1 0 UNIAXIAL_STRAIN"
    by (simp add: local_example_def LocalDamage_init_def)
  have h2: "(0::real) < 1" by simp
  have h3: "storage_ok (ld_C local_example)"
    by (simp add: local_example_def LocalDamage_init_def C_example_UNIAXIAL_STRAIN storage_ok_def)
  have h4: "m_cols (ld_C local_example) = length [1::real]"
    by (simp add: local_example_def LocalDamage_init_def C_example_UNIAXIAL_STRAIN)
  have h5: "(0::int) \<le> 0" by simp
  have h6: "0 < int (length (ld_kappa local_example))"
    by (simp add: local_example_def)
  have h7: "ld_kappa local_example ! nat 0 = 0"
    by (simp add: local_example_def)
  have h8: "ModMisesEeq_evaluate (ld_eeq local_example) [1]
      = Inr (1 + 1 / 10 ^ 14, [1 / (1 + 1 / 10 ^ 14)])"
    by (simp add: h1 ModMisesEeq_uniaxial_one)
  have h9: "1 + 1 / 10 ^ 14 < dl_k0 (ld_omega local_example)"
    by (simp add: local_example_def LocalDamage_init_def)
  from LocalDamage_elastic_branch [OF h1 h2 h3 h4 h5 h6 h7 h8 h9] h7 h8 h9
  show ?thesis by blast
qed

section \<open>Update is idempotent\<close>

text \<open>
  C8. For every stored history, point and driving input (the strain for the local law;
  the strain and the nonlocal equivalent strain for the gradient-enhanced law), a second
  \<open>update\<close> with the same input right after the first changes nothing: it returns the
  law the first one left.
\<close>

theorem update_twice_is_update_once:
  "(LocalDamage_update law strain i = Inr law1 \<longrightarrow> LocalDamage_update law1 strain i = Inr law1)
   \<and> (GradientDamage_update g strain2 neeq j = Inr g1 \<longrightarrow>
        GradientDamage_update g1 strain2 neeq j = Inr g1)"
  by (auto dest: LocalDamage_update_twice GradientDamage_update_twice)

theorem update_twice_is_update_once_witness:
  "(\<exists>law1. LocalDamage_update local_example [1] 0 = Inr law1
      \<and> LocalDamage_update law1 [1] 0 = Inr law1 \<and> ld_kappa law1 = [1 + 1 / 10 ^ 14])
   \<and> (\<exists>g1. GradientDamage_update gradient_example [1, 0, 0] 2 0 = Inr g1
      \<and> GradientDamage_update g1 [1, 0, 0] 2 0 = Inr g1 \<and> q_data (gd_kappa g1) = [2])"
proof -
  let ?law1 = "local_example\<lparr>ld_kappa := [1 + 1 / 10 ^ 14]\<rparr>"
  let ?g1 = "gradient_example\<lparr>gd_kappa := \<lparr>q_rows = 1, q_cols = 1, q_data = [2]\<rparr>\<rparr>"
  have a: "LocalDamage_update local_example [1] 0 = Inr ?law1"
    by (rule local_example_update_one)
  have b: "GradientDamage_update gradient_example [1, 0, 0] 2 0 = Inr ?g1"
    by (rule gradient_example_update_two)
  have c: "ld_kappa ?law1 = [1 + 1 / 10 ^ 14]" "q_data (gd_kappa ?g1) = [2]"
    by simp_all
  from update_twice_is_update_once
    [of local_example "[1]" 0 ?law1 gradient_example "[1, 0, 0]" 2 0 ?g1] a b c
  show ?thesis by blast
qed

section \<open>The shape contract of the storage\<close>

text \<open>
  C9 as stated has \<open>Set\<close> succeed whenever the shape of the value matches. The shape
  assertions do pass then, but the call writes the block of point \<open>i\<close>, and Eigen refuses
  a block outside the storage: on a container that was never resized, the 1 by 1 value
  passes both assertions and the call fails all the same.
\<close>

theorem QValues_Set_matching_shape_fails:
  "int (m_rows \<lparr>m_rows = 1, m_cols = 1, m_data = [5]\<rparr>) = q_rows (QValues_init 1 1)
   \<and> int (m_cols \<lparr>m_rows = 1, m_cols = 1, m_data = [5]\<rparr>) = q_cols (QValues_init 1 1)
   \<and> QValues_Set \<lparr>m_rows = 1, m_cols = 1, m_data = [5]\<rparr> 0 (QValues_init 1 1) = Inl EigenAssertion"
  by (simp add: QValues_Set_def QValues_init_def segment_ok_def)

text \<open>
  C9, amended. \<open>Set\<close> of a matrix value fails a precondition assertion when the rows or
  the columns of the value differ from the declared shape. Under matching shape both
  assertions pass; when the products \<open>rows * cols\<close> and \<open>rows * cols * i\<close> fit a 32 bit
  \<^verbatim>\<open>int\<close>, the call then succeeds when the block of point \<open>i\<close> lies inside the storage, and
  fails the range check of Eigen otherwise. The scalar \<open>Set\<close> and \<open>GetScalar\<close> fail an
  assertion unless the declared shape is 1 by 1; under that shape they succeed when \<open>i\<close>
  is a point of the storage.
\<close>

theorem QValues_shape_contract:
  "(int (m_rows v) \<noteq> q_rows q \<or> int (m_cols v) \<noteq> q_cols q \<longrightarrow>
      QValues_Set v i q = Inl AssertionFailed)
   \<and> (int (m_rows v) = q_rows q \<and> int (m_cols v) = q_cols q \<longrightarrow>
      QValues_Set v i q \<noteq> Inl AssertionFailed
      \<and> (int32 (q_rows q * q_cols q) \<and> int32 (q_rows q * q_cols q * i) \<longrightarrow>
          (segment_ok (q_data q) (q_rows q * q_cols q * i) (q_rows q * q_cols q) \<longrightarrow>
             QValues_Set v i q
               = Inr (q\<lparr>q_data := assign_segment (q_data q) (q_rows q * q_cols q * i) (m_data v)\<rparr>))
          \<and> (\<not> segment_ok (q_data q) (q_rows q * q_cols q * i) (q_rows q * q_cols q) \<longrightarrow>
             QValues_Set v i q = Inl EigenAssertion)))
   \<and> (q_rows q \<noteq> 1 \<or> q_cols q \<noteq> 1 \<longrightarrow>
      QValues_Set_scalar x i q = Inl AssertionFailed \<and> QValues_GetScalar i q = Inl AssertionFailed)
   \<and> (q_rows q = 1 \<and> q_cols q = 1 \<longrightarrow>
      QValues_Set_scalar x i q \<noteq> Inl AssertionFailed
      \<and> QValues_GetScalar i q \<noteq> Inl AssertionFailed
      \<and> (0 \<le> i \<and> i < int (length (q_data q)) \<longrightarrow>
           QValues_Set_scalar x i q = Inr (q\<lparr>q_data := (q_data q)[nat i := x]\<rparr>)
           \<and> QValues_GetScalar i q = Inr (q_data q ! nat i)))"
  by (simp add: QValues_Set_def QValues_Set_scalar_def QValues_GetScalar_def vec_at_def)

theorem QValues_shape_contract_witness:
  "QValues_Set \<lparr>m_rows = 2, m_cols = 1, m_data = [7, 8]\<rparr> 1
       \<lparr>q_rows = 3, q_cols = 1, q_data = [0, 0, 0, 0, 0, 0]\<rparr> = Inl AssertionFailed
   \<and> int32 (3 * 1) \<and> int32 (3 * 1 * 1) \<and> int32 (3 * 1 * 2)
   \<and> QValues_Set \<lparr>m_rows = 3, m_cols = 1, m_data = [7, 8, 9]\<rparr> 1
       \<lparr>q_rows = 3, q_cols = 1, q_data = [0, 0, 0, 0, 0, 0]\<rparr>
       = Inr \<lparr>q_rows = 3, q_cols = 1, q_data = [0, 0, 0, 7, 8, 9]\<rparr>
   \<and> QValues_Set \<lparr>m_rows = 3, m_cols = 1, m_data = [7, 8, 9]\<rparr> 2
       \<lparr>q_rows = 3, q_cols = 1, q_data = [0, 0, 0, 0, 0, 0]\<rparr> = Inl EigenAssertion
   \<and> QValues_Set_scalar 4 0 \<lparr>q_rows = 3, q_cols = 1, q_data = [0, 0, 0, 0, 0, 0]\<rparr>
       = Inl AssertionFailed
   \<and> QValues_Set_scalar 4 0 \<lparr>q_rows = 1, q_cols = 1, q_data = [0, 0]\<rparr>
       = Inr \<lparr>q_rows = 1, q_cols = 1, q_data = [4, 0]\<rparr>
   \<and> QValues_GetScalar 1 \<lparr>q_rows = 1, q_cols = 1, q_data = [4, 6]\<rparr> = Inr 6"
proof -
  let ?q = "\<lparr>q_rows = 3, q_cols = 1, q_data = [0, 0, 0, 0, 0, 0]\<rparr>"
  let ?bad = "\<lparr>m_rows = 2, m_cols = 1, m_data = [7, 8]\<rparr>"
  let ?good = "\<lparr>m_rows = 3, m_cols = 1, m_data = [7, 8, 9]\<rparr>"
  have shape_bad: "int (m_rows ?bad) \<noteq> q_rows ?q" by simp
  have shape_good: "int (m_rows ?good) = q_rows ?q \<and> int (m_cols ?good) = q_cols ?q" by simp
  have range: "int32 (3 * 1)" "int32 (3 * 1 * 1)" "int32 (3 * 1 * 2)"
    by (simp_all add: int32_def)
  have range1: "int32 (q_rows ?q * q_cols ?q) \<and> int32 (q_rows ?q * q_cols ?q * 1)"
    by (simp add: int32_def)
  have range2: "int32 (q_rows ?q * q_cols ?q) \<and> int32 (q_rows ?q * q_cols ?q * 2)"
    by (simp add: int32_def)
  have inside: "segment_ok (q_data ?q) (q_rows ?q * q_cols ?q * 1) (q_rows ?q * q_cols ?q)"
    by (simp add: segment_ok_def)
  have outside: "\<not> segment_ok (q_data ?q) (q_rows ?q * q_cols ?q * 2) (q_rows ?q * q_cols ?q)"
    by (simp add: segment_ok_def)
  have written: "assign_segment (q_data ?q) (q_rows ?q * q_cols ?q * 1) (m_data ?good)
      = [0, 0, 0, 7, 8, 9]"
    by (simp add: assign_segment_def)
  have s1: "QValues_Set ?bad 1 ?q = Inl AssertionFailed"
    using QValues_shape_contract [of ?bad ?q 1 0] shape_bad by blast
  have "QValues_Set ?good 1 ?q
      = Inr (?q\<lparr>q_data := assign_segment (q_data ?q) (q_rows ?q * q_cols ?q * 1) (m_data ?good)\<rparr>)"
    using QValues_shape_contract [of ?good ?q 1 0] shape_good range1 inside by blast
  then have s2: "QValues_Set ?good 1 ?q
      = Inr \<lparr>q_rows = 3, q_cols = 1, q_data = [0, 0, 0, 7, 8, 9]\<rparr>"
    by (simp only: written) simp
  have s3: "QValues_Set ?good 2 ?q = Inl EigenAssertion"
    using QValues_shape_contract [of ?good ?q 2 0] shape_good range2 outside by blast
  have s4: "QValues_Set_scalar 4 0 ?q = Inl AssertionFailed"
    using QValues_shape_contract [of ?good ?q 0 4] by simp
  have s5: "QValues_Set_scalar 4 0 \<lparr>q_rows = 1, q_cols = 1, q_data = [0, 0]\<rparr>
      = Inr \<lparr>q_rows = 1, q_cols = 1, q_data = [4, 0]\<rparr>"
    using QValues_shape_contract [of ?good "\<lparr>q_rows = 1, q_cols = 1, q_data = [0, 0]\<rparr>" 0 4]
    by simp
  have s6: "QValues_GetScalar 1 \<lparr>q_rows = 1, q_cols = 1, q_data = [4, 6]\<rparr> = Inr 6"
    using QValues_shape_contract [of ?good "\<lparr>q_rows = 1, q_cols = 1, q_data = [4, 6]\<rparr>" 1 0]
    by simp
  from s1 range s2 s3 s4 s5 s6 show ?thesis by blast
qed

section \<open>The equivalent strain of a construction\<close>




end
